theory Spec2Isabelle
  imports Main "HOL-Library.Word"
begin

section \<open>JavaScript strings and values\<close>

text \<open>
  A JavaScript string is a sequence of UTF-16 code units, so it is modelled as a list of
  16-bit words. \<open>js\<close> turns an Isabelle literal into such a string; every literal of the
  source is ASCII.
\<close>

type_synonym jschar = "16 word"
type_synonym jsstring = "jschar list"

definition js :: "string \<Rightarrow> jsstring" where
  "js s = map (\<lambda>c. of_nat (of_char c)) s"

text \<open>
  \<open>String.prototype.trim\<close> removes the ECMAScript WhiteSpace and LineTerminator code
  points from both ends: TAB, LF, VT, FF, CR, SP, NBSP, the Unicode space separators,
  LS, PS and the byte order mark. All of them are single code units.
\<close>

definition is_ws :: "jschar \<Rightarrow> bool" where
  "is_ws c \<longleftrightarrow>
     c = 0x09 \<or> c = 0x0A \<or> c = 0x0B \<or> c = 0x0C \<or> c = 0x0D \<or> c = 0x20 \<or> c = 0xA0 \<or>
     c = 0x1680 \<or> (0x2000 \<le> c \<and> c \<le> 0x200A) \<or> c = 0x2028 \<or> c = 0x2029 \<or>
     c = 0x202F \<or> c = 0x205F \<or> c = 0x3000 \<or> c = 0xFEFF"

definition trim :: "jsstring \<Rightarrow> jsstring" where
  "trim s = rev (dropWhile is_ws (rev (dropWhile is_ws s)))"

text \<open>\<open>s.startsWith(p)\<close>; \<open>s.substring(n)\<close> is \<open>drop n s\<close>.\<close>

definition startsWith :: "jsstring \<Rightarrow> jsstring \<Rightarrow> bool" where
  "startsWith s p \<longleftrightarrow> take (length p) s = p"

text \<open>
  \<open>s.split('\n')\<close>: the pieces between line feeds. The result is never empty: the
  empty string splits into one empty piece.
\<close>

fun split_lines :: "jsstring \<Rightarrow> jsstring list" where
  "split_lines [] = [[]]"
| "split_lines (c # cs) =
     (if c = 0x0A then [] # split_lines cs
      else (case split_lines cs of
              l # ls \<Rightarrow> (c # l) # ls
            | [] \<Rightarrow> [[c]]))"

text \<open>The inverse direction, used to write streams down: lines joined by line feeds.\<close>

fun join_lines :: "jsstring list \<Rightarrow> jsstring" where
  "join_lines [] = []"
| "join_lines [l] = l"
| "join_lines (l # m # ls) = l @ 0x0A # join_lines (m # ls)"

text \<open>
  JavaScript numbers: the integers that a double holds exactly (magnitude up to
  \<open>2 ^ 53\<close>, which covers every seed the application handles), NaN, a fraction of two
  integers for the non-integer constants of the source, and \<open>JLarge\<close> for a number beyond
  \<open>2 ^ 53\<close>, which JavaScript rounds to a double and whose value is not followed here.
\<close>

datatype jsnum = JNaN | JInt int | JFrac int int | JLarge

text \<open>
  The values \<open>JSON.parse\<close> can produce, and \<open>undefined\<close>. An object is the list of
  its own properties.
\<close>

datatype jsval =
    JUndefined
  | JNull
  | JBool bool
  | JNum jsnum
  | JStr jsstring
  | JArr "jsval list"
  | JObj "(jsstring \<times> jsval) list"

text \<open>
  What the code can throw: the \<open>Error\<close> it constructs itself (with its message), the
  \<open>TypeError\<close> of the runtime for a property read on \<open>null\<close> or \<open>undefined\<close> or a
  call of a missing method, and the rejection of a network exchange.
\<close>

datatype js_error = Error jsstring | TypeError | Rejected

section \<open>The event stream parser\<close>

definition quota_message :: jsstring where
  \<open>quota_message =
     js ''Your today's quota has been used up. You can set up Hugging Face Token to get more quota.''\<close>

text \<open>
  The loop of \<open>extractCompleteEventData\<close> over the lines, with the flag
  \<open>isCompleteEvent\<close> as an argument. \<open>JSON.parse\<close> is a parameter: \<open>None\<close> is its
  \<open>SyntaxError\<close>, which the code catches and turns into \<open>null\<close>.
\<close>

fun scan_lines :: "(jsstring \<Rightarrow> jsval option) \<Rightarrow> bool \<Rightarrow> jsstring list \<Rightarrow> js_error + jsval" where
  "scan_lines parse isCompleteEvent [] = Inr JNull"
| "scan_lines parse isCompleteEvent (line # rest) =
     (if startsWith line (js ''event:'') then
        (if trim (drop 6 line) = js ''complete'' then scan_lines parse True rest
         else if trim (drop 6 line) = js ''error'' then Inl (Error quota_message)
         else scan_lines parse False rest)
      else if startsWith line (js ''data:'') \<and> isCompleteEvent then
        (case parse (trim (drop 5 line)) of
           Some v \<Rightarrow> Inr v
         | None \<Rightarrow> Inr JNull)
      else scan_lines parse isCompleteEvent rest)"

definition extractCompleteEventData :: "(jsstring \<Rightarrow> jsval option) \<Rightarrow> jsstring \<Rightarrow> js_error + jsval" where
  "extractCompleteEventData parse sseStream = scan_lines parse False (split_lines sseStream)"

subsection \<open>The vocabulary of the stream\<close>

text \<open>
  The kinds of line the specification speaks of. A data line is carried by a complete
  event when the nearest event line before it is a \<open>complete\<close> event.
\<close>

definition is_event_line :: "jsstring \<Rightarrow> bool" where
  "is_event_line l \<longleftrightarrow> startsWith l (js ''event:'')"

definition event_type :: "jsstring \<Rightarrow> jsstring" where
  "event_type l = trim (drop 6 l)"

definition is_complete_event :: "jsstring \<Rightarrow> bool" where
  "is_complete_event l \<longleftrightarrow> is_event_line l \<and> event_type l = js ''complete''"

definition is_error_event :: "jsstring \<Rightarrow> bool" where
  "is_error_event l \<longleftrightarrow> is_event_line l \<and> event_type l = js ''error''"

definition is_data_line :: "jsstring \<Rightarrow> bool" where
  "is_data_line l \<longleftrightarrow> startsWith l (js ''data:'')"

definition data_payload :: "jsstring \<Rightarrow> jsstring" where
  "data_payload l = trim (drop 5 l)"

definition last_event_complete :: "jsstring list \<Rightarrow> bool" where
  "last_event_complete ls \<longleftrightarrow>
     (case rev (filter is_event_line ls) of [] \<Rightarrow> False | e # _ \<Rightarrow> is_complete_event e)"

definition carried_data_at :: "jsstring list \<Rightarrow> nat \<Rightarrow> bool" where
  "carried_data_at ls j \<longleftrightarrow>
     j < length ls \<and> is_data_line (ls ! j) \<and> last_event_complete (take j ls)"

definition no_carried_data_before :: "jsstring list \<Rightarrow> nat \<Rightarrow> bool" where
  "no_carried_data_before ls k \<longleftrightarrow> list_all (\<lambda>j. \<not> carried_data_at ls j) [0..<k]"

definition no_error_event_before :: "jsstring list \<Rightarrow> nat \<Rightarrow> bool" where
  "no_error_event_before ls k \<longleftrightarrow> list_all (\<lambda>l. \<not> is_error_event l) (take k ls)"

definition no_data_line_after :: "jsstring list \<Rightarrow> nat \<Rightarrow> bool" where
  "no_data_line_after ls i \<longleftrightarrow> list_all (\<lambda>l. \<not> is_data_line l) (drop (Suc i) ls)"

text \<open>
  The value of \<open>isCompleteEvent\<close> after a run of lines none of which ends the loop.
\<close>

fun flag_after :: "bool \<Rightarrow> jsstring list \<Rightarrow> bool" where
  "flag_after b [] = b"
| "flag_after b (l # ls) = flag_after (if is_event_line l then is_complete_event l else b) ls"

definition carried_indices :: "jsstring list \<Rightarrow> nat list" where
  "carried_indices ls = filter (carried_data_at ls) [0..<length ls]"

definition parsed_or_null :: "(jsstring \<Rightarrow> jsval option) \<Rightarrow> jsstring \<Rightarrow> jsval" where
  "parsed_or_null parse t = (case parse t of Some v \<Rightarrow> v | None \<Rightarrow> JNull)"

text \<open>
  A stand-in for \<open>JSON.parse\<close> in evaluated examples: it knows a few JSON texts, on
  which it returns what \<open>JSON.parse\<close> returns, and rejects everything else.
\<close>

definition echo_payload :: jsval where
  "echo_payload =
     JArr [JObj [(js ''url'', JStr (js ''https://h/a.png''))],
           JStr (js ''Seed used for generation: 42'')]"

definition number_payload :: jsval where
  "number_payload =
     JArr [JObj [(js ''url'', JStr (js ''https://h/a.png''))], JNum (JInt 42)]"

definition sample_parse :: "jsstring \<Rightarrow> jsval option" where
  \<open>sample_parse = map_of
     [(js ''1'', JNum (JInt 1)),
      (js ''2'', JNum (JInt 2)),
      (js ''null'', JNull),
      (js ''[{"url":"https://h/a.png"},"Seed used for generation: 42"]'', echo_payload),
      (js ''[{"url":"https://h/a.png"},42]'', number_payload)]\<close>

subsection \<open>Example streams\<close>


definition complete_then_error :: jsstring where
  "complete_then_error = join_lines
     [js ''event: complete'', js ''data: 1'', js ''event: error'', js ''data: null'']"

definition error_between_completes :: jsstring where
  "error_between_completes = join_lines
     [js ''event: complete'', js '': ping'', js ''event: error'', js ''data: null'',
      js ''event: complete'', js ''data: 1'']"

definition data_after_heartbeat :: jsstring where
  "data_after_heartbeat = join_lines
     [js ''event: heartbeat'', js ''data: 2'', js ''event: complete'', js ''data: 1'',
      js ''event: complete'', js ''data: 2'', js ''event: error'']"

definition complete_without_data :: jsstring where
  "complete_without_data = join_lines
     [js ''event: heartbeat'', js ''data: 1'', js ''event: complete'', js ''event: generating'',
      js ''data: 2'', []]"

definition data_then_bare_complete :: jsstring where
  "data_then_bare_complete = join_lines
     [js ''event: complete'', js ''data: 1'', js ''event: complete'', []]"

definition two_completes :: jsstring where
  "two_completes = join_lines
     [js ''event: complete'', js ''data: 1'', js ''event: complete'', js ''data: 2'']"

section \<open>The Job Adapter\<close>

subsection \<open>Image dimensions of the z-image-turbo backend\<close>

text \<open>
  The type \<open>AspectRatioOption\<close> is a union of nine string literals; \<open>ratio_text\<close> gives
  the literal of each member.
\<close>

datatype AspectRatioOption = R1_1 | R3_2 | R2_3 | R3_4 | R4_3 | R4_5 | R5_4 | R9_16 | R16_9

fun ratio_text :: "AspectRatioOption \<Rightarrow> jsstring" where
  "ratio_text R1_1 = js ''1:1''"
| "ratio_text R3_2 = js ''3:2''"
| "ratio_text R2_3 = js ''2:3''"
| "ratio_text R3_4 = js ''3:4''"
| "ratio_text R4_3 = js ''4:3''"
| "ratio_text R4_5 = js ''4:5''"
| "ratio_text R5_4 = js ''5:4''"
| "ratio_text R9_16 = js ''9:16''"
| "ratio_text R16_9 = js ''16:9''"

record dimensions =
  width :: int
  height :: int

text \<open>
  The two \<open>switch\<close> statements of \<open>getZImageDimensions\<close>, case by case in the order of
  the source; the last equation of each group is the \<open>default\<close> branch, which \<open>"1:1"\<close>
  shares.
\<close>

fun getZImageDimensions :: "AspectRatioOption \<Rightarrow> bool \<Rightarrow> dimensions" where
  "getZImageDimensions R16_9 True = \<lparr>width = 2048, height = 1152\<rparr>"
| "getZImageDimensions R4_3 True = \<lparr>width = 2048, height = 1536\<rparr>"
| "getZImageDimensions R3_2 True = \<lparr>width = 1920, height = 1280\<rparr>"
| "getZImageDimensions R9_16 True = \<lparr>width = 1152, height = 2048\<rparr>"
| "getZImageDimensions R3_4 True = \<lparr>width = 1536, height = 2048\<rparr>"
| "getZImageDimensions R2_3 True = \<lparr>width = 1280, height = 1920\<rparr>"
| "getZImageDimensions _ True = \<lparr>width = 2048, height = 2048\<rparr>"
| "getZImageDimensions R16_9 False = \<lparr>width = 1280, height = 720\<rparr>"
| "getZImageDimensions R4_3 False = \<lparr>width = 1024, height = 768\<rparr>"
| "getZImageDimensions R3_2 False = \<lparr>width = 1536, height = 1024\<rparr>"
| "getZImageDimensions R9_16 False = \<lparr>width = 720, height = 1280\<rparr>"
| "getZImageDimensions R3_4 False = \<lparr>width = 768, height = 1024\<rparr>"
| "getZImageDimensions R2_3 False = \<lparr>width = 1024, height = 1536\<rparr>"
| "getZImageDimensions _ False = \<lparr>width = 1024, height = 1024\<rparr>"

text \<open>
  Decimal digits, and the value of a run of digits in a radix. \<open>requested_ratio\<close> reads
  the two numbers of a ratio literal \<open>W:H\<close>.
\<close>

definition is_digit :: "jschar \<Rightarrow> bool" where
  "is_digit c \<longleftrightarrow> 0x30 \<le> c \<and> c \<le> 0x39"

definition digits_value :: "nat \<Rightarrow> nat list \<Rightarrow> nat" where
  "digits_value radix ds = foldl (\<lambda>acc d. acc * radix + d) 0 ds"

definition decimal_value :: "jsstring \<Rightarrow> nat" where
  "decimal_value s = digits_value 10 (map (\<lambda>c. unat c - 48) s)"

definition requested_ratio :: "AspectRatioOption \<Rightarrow> int \<times> int" where
  "requested_ratio r =
     (int (decimal_value (takeWhile (\<lambda>c. c \<noteq> 0x3A) (ratio_text r))),
      int (decimal_value (drop 1 (dropWhile (\<lambda>c. c \<noteq> 0x3A) (ratio_text r)))))"

definition reduced_ratio :: "dimensions \<Rightarrow> int \<times> int" where
  "reduced_ratio d = (width d div gcd (width d) (height d), height d div gcd (width d) (height d))"

subsection \<open>Requests and their headers\<close>

text \<open>
  A call of \<open>fetch\<close>: the URL and the fields of its options object. \<open>JSON.stringify\<close> is
  not modelled: the body is the value it is applied to. The headers object is the list of
  its properties in insertion order.
\<close>

record request =
  req_url :: jsstring
  req_method :: "jsstring option"
  req_headers :: "(jsstring \<times> jsstring) list"
  req_body :: "jsval option"

text \<open>
  The result type of the adapter, from the \<open>GeneratedImage\<close> interface. The fields
  \<open>url\<close> and \<open>seed\<close> hold whatever JavaScript value the code stores there (the payload is
  of type \<open>any\<close>). The name \<open>id\<close> is taken in HOL, so the field \<open>id\<close> is \<open>img_id\<close>.
\<close>

record GeneratedImage =
  img_id :: jsstring
  url :: jsval
  prompt :: jsstring
  aspectRatio :: jsstring
  timestamp :: int
  model :: jsstring
  seed :: jsval

text \<open>
  What the adapter reads from its surroundings. \<open>localStorage\<close> is \<open>None\<close> where the
  global does not exist. \<open>post_event_id\<close> is the exchange with an enqueue endpoint up to
  the destructuring of \<open>event_id\<close>: the text that the code appends to the result URL, or
  \<open>None\<close> when \<open>fetch\<close>, \<open>json()\<close> or the destructuring throws. \<open>get_text\<close> is the
  exchange with a result endpoint: the body text, or \<open>None\<close> when it throws.
  \<open>random_seed\<close> is the value of \<open>Math.round(Math.random() * 2147483647)\<close>.
\<close>

record env =
  localStorage :: "(jsstring \<Rightarrow> jsstring option) option"
  post_event_id :: "request \<Rightarrow> jsstring option"
  get_text :: "request \<Rightarrow> jsstring option"
  json_parse :: "jsstring \<Rightarrow> jsval option"
  randomUUID :: jsstring
  date_now :: int
  random_seed :: int

definition ZIMAGE_BASE_API_URL :: jsstring where
  "ZIMAGE_BASE_API_URL = js ''https://luca115-z-image-turbo.hf.space''"

definition QWEN_IMAGE_BASE_API_URL :: jsstring where
  "QWEN_IMAGE_BASE_API_URL = js ''https://mcp-tools-qwen-image-fast.hf.space''"

definition UPSCALER_BASE_API_URL :: jsstring where
  "UPSCALER_BASE_API_URL = js ''https://tuan2308-upscaler.hf.space''"

definition stored_token :: "env \<Rightarrow> jsstring option" where
  "stored_token e =
     (case localStorage e of
        None \<Rightarrow> None
      | Some getItem \<Rightarrow> getItem (js ''huggingFaceToken''))"

text \<open>\<open>if (token)\<close>: \<open>null\<close> and the empty string are falsy.\<close>

definition getAuthHeaders :: "env \<Rightarrow> (jsstring \<times> jsstring) list" where
  "getAuthHeaders e =
     (let token = stored_token e;
          headers = [(js ''Content-Type'', js ''application/json'')]
      in case token of
           None \<Rightarrow> headers
         | Some t \<Rightarrow>
             if t \<noteq> [] then headers @ [(js ''Authorization'', js ''Bearer '' @ t)]
             else headers)"

subsection \<open>Reading the payload\<close>

text \<open>The decimal text of a natural number, as \<open>ToString\<close> gives it.\<close>

definition digit_char :: "nat \<Rightarrow> jschar" where
  "digit_char d = of_nat (48 + d)"

fun decimal :: "nat \<Rightarrow> jsstring" where
  "decimal n =
     (if n < 10 then [digit_char n]
      else decimal (n div 10) @ [digit_char (n mod 10)])"

declare decimal.simps [simp del]

text \<open>
  \<open>v[i]\<close> for a value of type \<open>any\<close>: a \<open>TypeError\<close> on \<open>null\<close> and \<open>undefined\<close>, the
  element of an array, the character of a string, the property named by the index of an
  object, and \<open>undefined\<close> where there is none.
\<close>

fun js_index :: "jsval \<Rightarrow> nat \<Rightarrow> js_error + jsval" where
  "js_index JUndefined i = Inl TypeError"
| "js_index JNull i = Inl TypeError"
| "js_index (JArr xs) i = Inr (if i < length xs then xs ! i else JUndefined)"
| "js_index (JStr s) i = Inr (if i < length s then JStr [s ! i] else JUndefined)"
| "js_index (JObj ps) i =
     Inr (case map_of ps (decimal i) of Some v \<Rightarrow> v | None \<Rightarrow> JUndefined)"
| "js_index (JBool b) i = Inr JUndefined"
| "js_index (JNum n) i = Inr JUndefined"

text \<open>
  \<open>v.url\<close>: only an object can have the property; arrays, strings, numbers and booleans
  have none of that name.
\<close>

fun prop_url :: "jsval \<Rightarrow> js_error + jsval" where
  "prop_url JUndefined = Inl TypeError"
| "prop_url JNull = Inl TypeError"
| "prop_url (JObj ps) =
     Inr (case map_of ps (js ''url'') of Some v \<Rightarrow> v | None \<Rightarrow> JUndefined)"
| "prop_url (JArr xs) = Inr JUndefined"
| "prop_url (JStr s) = Inr JUndefined"
| "prop_url (JBool b) = Inr JUndefined"
| "prop_url (JNum n) = Inr JUndefined"

text \<open>
  \<open>s.replace(pat, '')\<close> with a string pattern removes the first occurrence of the pattern.
\<close>

fun remove_first :: "jsstring \<Rightarrow> jsstring \<Rightarrow> jsstring" where
  "remove_first pat [] = []"
| "remove_first pat (c # cs) =
     (if startsWith (c # cs) pat then drop (length pat) (c # cs)
      else c # remove_first pat cs)"

text \<open>
  \<open>v.replace('Seed used for generation: ', '')\<close> for a value of type \<open>any\<close>: only a
  string has the method. On \<open>null\<close> and \<open>undefined\<close> the property read throws, on every
  other value of a JSON payload the call of a missing method does.
\<close>

fun replace_seed_prefix :: "jsval \<Rightarrow> js_error + jsstring" where
  "replace_seed_prefix (JStr s) = Inr (remove_first (js ''Seed used for generation: '') s)"
| "replace_seed_prefix v = Inl TypeError"

text \<open>
  \<open>parseInt(s)\<close> without a radix: leading white space is skipped, a sign is read, the
  prefix \<open>0x\<close> or \<open>0X\<close> selects radix 16, and the longest run of digits of the radix is
  the value; without a digit the result is \<open>NaN\<close>. The result is a double: up to \<open>2 ^ 53\<close>
  it is the integer itself, beyond that it is rounded, which \<open>JLarge\<close> stands for.
\<close>

definition hex_digit_value :: "jschar \<Rightarrow> nat option" where
  "hex_digit_value c =
     (if 0x30 \<le> c \<and> c \<le> 0x39 then Some (unat c - 48)
      else if 0x61 \<le> c \<and> c \<le> 0x66 then Some (unat c - 87)
      else if 0x41 \<le> c \<and> c \<le> 0x46 then Some (unat c - 55)
      else None)"

definition hex_digit :: "jschar \<Rightarrow> nat" where
  "hex_digit c = (case hex_digit_value c of Some d \<Rightarrow> d | None \<Rightarrow> 0)"

definition parse_digits :: "nat \<Rightarrow> jsstring \<Rightarrow> int \<Rightarrow> jsnum" where
  "parse_digits radix s sign =
     (let z = (if radix = 16 then takeWhile (\<lambda>c. hex_digit_value c \<noteq> None) s
               else takeWhile is_digit s)
      in if z = [] then JNaN
         else if digits_value radix (map hex_digit z) \<le> 2 ^ 53
         then JInt (sign * int (digits_value radix (map hex_digit z)))
         else JLarge)"

definition parseInt :: "jsstring \<Rightarrow> jsnum" where
  "parseInt str =
     (let s = dropWhile is_ws str;
          sign = (if startsWith s [0x2D] then - 1 else 1);
          s1 = (if s \<noteq> [] \<and> (hd s = 0x2B \<or> hd s = 0x2D) then tl s else s)
      in if startsWith s1 (js ''0x'') \<or> startsWith s1 (js ''0X'')
         then parse_digits 16 (drop 2 s1) sign
         else parse_digits 10 s1 sign)"

subsection \<open>The generation calls\<close>

text \<open>
  Each call returns the requests it has sent, in order, and its outcome: the error it
  throws (after logging it, the \<open>catch\<close> block throws it again) or its result.
\<close>

definition enqueue_request :: "env \<Rightarrow> jsstring \<Rightarrow> jsval \<Rightarrow> request" where
  "enqueue_request e endpoint body =
     \<lparr>req_url = endpoint, req_method = Some (js ''POST''),
      req_headers = getAuthHeaders e, req_body = Some body\<rparr>"

definition result_request :: "env \<Rightarrow> jsstring \<Rightarrow> request" where
  "result_request e endpoint =
     \<lparr>req_url = endpoint, req_method = None,
      req_headers = getAuthHeaders e, req_body = None\<rparr>"

text \<open>
  The part the three calls share: POST to the enqueue endpoint, GET of the result
  endpoint extended by the event id, and the parse of the event stream.
\<close>

definition exchange :: "env \<Rightarrow> jsstring \<Rightarrow> jsval \<Rightarrow> request list \<times> (js_error + jsval)" where
  "exchange e endpoint body =
     (let queue = enqueue_request e endpoint body
      in case post_event_id e queue of
           None \<Rightarrow> ([queue], Inl Rejected)
         | Some event_id \<Rightarrow>
             (let response = result_request e (endpoint @ js ''/'' @ event_id)
              in case get_text e response of
                   None \<Rightarrow> ([queue, response], Inl Rejected)
                 | Some result \<Rightarrow>
                     ([queue, response], extractCompleteEventData (json_parse e) result)))"

definition zimage_seed_of :: "jsval \<Rightarrow> js_error + jsval" where
  "zimage_seed_of data = js_index data 1"

definition qwen_seed_of :: "jsval \<Rightarrow> js_error + jsval" where
  "qwen_seed_of data =
     (case js_index data 1 of
        Inl err \<Rightarrow> Inl err
      | Inr echo \<Rightarrow>
          (case replace_seed_prefix echo of
             Inl err \<Rightarrow> Inl err
           | Inr digits \<Rightarrow> Inr (JNum (parseInt digits))))"

definition url_of :: "jsval \<Rightarrow> js_error + jsval" where
  "url_of data =
     (case js_index data 0 of
        Inl err \<Rightarrow> Inl err
      | Inr first \<Rightarrow> prop_url first)"

text \<open>
  The default value of the parameter \<open>seed\<close> is taken when the caller passes
  \<open>undefined\<close>.
\<close>

definition zimage_exchange ::
  "env \<Rightarrow> jsstring \<Rightarrow> AspectRatioOption \<Rightarrow> jsnum option \<Rightarrow> bool
     \<Rightarrow> request list \<times> (js_error + jsval)" where
  "zimage_exchange e prompt_in ratio seed_in enableHD =
     (let seed_used = (case seed_in of None \<Rightarrow> JInt (random_seed e) | Some n \<Rightarrow> n);
          d = getZImageDimensions ratio enableHD
      in exchange e (ZIMAGE_BASE_API_URL @ js ''/gradio_api/call/generate_image'')
           (JObj [(js ''data'',
              JArr [JStr prompt_in, JNum (JInt (height d)), JNum (JInt (width d)),
                    JNum (JInt 8), JNum seed_used, JBool False])]))"

definition generateZImage ::
  "env \<Rightarrow> jsstring \<Rightarrow> AspectRatioOption \<Rightarrow> jsnum option \<Rightarrow> bool
     \<Rightarrow> request list \<times> (js_error + GeneratedImage)" where
  "generateZImage e prompt_in ratio seed_in enableHD =
     (let (sent, outcome) = zimage_exchange e prompt_in ratio seed_in enableHD
      in case outcome of
           Inl err \<Rightarrow> (sent, Inl err)
         | Inr data \<Rightarrow>
             (case url_of data of
                Inl err \<Rightarrow> (sent, Inl err)
              | Inr u \<Rightarrow>
                  (case zimage_seed_of data of
                     Inl err \<Rightarrow> (sent, Inl err)
                   | Inr sd \<Rightarrow>
                       (sent, Inr \<lparr>img_id = randomUUID e, url = u, prompt = prompt_in,
                                   aspectRatio = ratio_text ratio, timestamp = date_now e,
                                   model = js ''z-image-turbo'', seed = sd\<rparr>))))"

text \<open>
  \<open>seed || 42\<close>: the seed when it is truthy (a number other than 0 and NaN), else 42.
  \<open>seed === undefined\<close>: whether the caller gave no seed.
\<close>

definition seed_or_42 :: "jsnum option \<Rightarrow> jsnum" where
  "seed_or_42 seed_in =
     (case seed_in of
        None \<Rightarrow> JInt 42
      | Some JNaN \<Rightarrow> JInt 42
      | Some (JInt n) \<Rightarrow> if n = 0 then JInt 42 else JInt n
      | Some (JFrac a b) \<Rightarrow> if a = 0 then JInt 42 else JFrac a b
      | Some JLarge \<Rightarrow> JLarge)"

definition qwen_payload :: "jsstring \<Rightarrow> AspectRatioOption \<Rightarrow> jsnum option \<Rightarrow> jsval list" where
  "qwen_payload prompt_in ratio seed_in =
     [JStr prompt_in, JNum (seed_or_42 seed_in), JBool (seed_in = None),
      JStr (ratio_text ratio), JNum (JInt 3), JNum (JInt 8)]"

definition qwen_exchange ::
  "env \<Rightarrow> jsstring \<Rightarrow> AspectRatioOption \<Rightarrow> jsnum option
     \<Rightarrow> request list \<times> (js_error + jsval)" where
  "qwen_exchange e prompt_in ratio seed_in =
     exchange e (QWEN_IMAGE_BASE_API_URL @ js ''/gradio_api/call/generate_image'')
       (JObj [(js ''data'', JArr (qwen_payload prompt_in ratio seed_in))])"

definition generateQwenImage ::
  "env \<Rightarrow> jsstring \<Rightarrow> AspectRatioOption \<Rightarrow> jsnum option
     \<Rightarrow> request list \<times> (js_error + GeneratedImage)" where
  "generateQwenImage e prompt_in ratio seed_in =
     (let (sent, outcome) = qwen_exchange e prompt_in ratio seed_in
      in case outcome of
           Inl err \<Rightarrow> (sent, Inl err)
         | Inr data \<Rightarrow>
             (case url_of data of
                Inl err \<Rightarrow> (sent, Inl err)
              | Inr u \<Rightarrow>
                  (case qwen_seed_of data of
                     Inl err \<Rightarrow> (sent, Inl err)
                   | Inr sd \<Rightarrow>
                       (sent, Inr \<lparr>img_id = randomUUID e, url = u, prompt = prompt_in,
                                   aspectRatio = ratio_text ratio, timestamp = date_now e,
                                   model = js ''qwen-image-fast'', seed = sd\<rparr>))))"

datatype ModelOption = Qwen_image_fast | Z_image_turbo

definition generateImage ::
  "env \<Rightarrow> ModelOption \<Rightarrow> jsstring \<Rightarrow> AspectRatioOption \<Rightarrow> jsnum option \<Rightarrow> bool
     \<Rightarrow> request list \<times> (js_error + GeneratedImage)" where
  "generateImage e model_in prompt_in ratio seed_in enableHD =
     (if model_in = Qwen_image_fast then generateQwenImage e prompt_in ratio seed_in
      else generateZImage e prompt_in ratio seed_in enableHD)"

definition upscaler_exchange :: "env \<Rightarrow> jsstring \<Rightarrow> request list \<times> (js_error + jsval)" where
  \<open>upscaler_exchange e url_in =
     exchange e (UPSCALER_BASE_API_URL @ js ''/gradio_api/call/realesrgan'')
       (JObj [(js ''data'',
          JArr [JObj [(js ''path'', JStr url_in),
                      (js ''meta'', JObj [(js ''_type'', JStr (js ''gradio.FileData''))])],
                JStr (js ''RealESRGAN_x4plus''), JNum (JFrac 1 2), JBool False,
                JNum (JInt 4)])])\<close>

text \<open>The result of \<open>upscaler\<close> is the object \<open>{ url: data[0].url }\<close>, given by its one field.\<close>

definition upscaler :: "env \<Rightarrow> jsstring \<Rightarrow> request list \<times> (js_error + jsval)" where
  "upscaler e url_in =
     (let (sent, outcome) = upscaler_exchange e url_in
      in case outcome of
           Inl err \<Rightarrow> (sent, Inl err)
         | Inr data \<Rightarrow>
             (case url_of data of
                Inl err \<Rightarrow> (sent, Inl err)
              | Inr u \<Rightarrow> (sent, Inr u)))"

text \<open>Examples: a surrounding with a token, one without, and the backend's replies.\<close>

definition seed_echo_stream :: jsstring where
  \<open>seed_echo_stream = join_lines
     [js ''event: complete'',
      js ''data: [{"url":"https://h/a.png"},"Seed used for generation: 42"]'', [], []]\<close>

definition seed_number_stream :: jsstring where
  \<open>seed_number_stream = join_lines
     [js ''event: complete'', js ''data: [{"url":"https://h/a.png"},42]'', [], []]\<close>

definition sample_env :: "jsstring option \<Rightarrow> jsstring \<Rightarrow> env" where
  "sample_env tok reply =
     \<lparr>localStorage = Some (\<lambda>k. if k = js ''huggingFaceToken'' then tok else None),
      post_event_id = (\<lambda>r. Some (js ''e1'')),
      get_text = (\<lambda>r. Some reply),
      json_parse = sample_parse,
      randomUUID = js ''id-1'',
      date_now = 1700000000000,
      random_seed = 7\<rparr>"

definition sample_image :: "jsstring \<Rightarrow> jsval \<Rightarrow> GeneratedImage" where
  "sample_image model_name seed_value =
     \<lparr>img_id = js ''id-1'', url = JStr (js ''https://h/a.png''), prompt = js ''a cat'',
      aspectRatio = js ''1:1'', timestamp = 1700000000000, model = model_name,
      seed = seed_value\<rparr>"

section \<open>The Task Tracker\<close>

text \<open>
  The records of the history are \<open>GeneratedImage\<close> values with the video fields that
  \<open>App.tsx\<close> reads and writes. The declaration of these fields is not part of the sources
  at hand; their types are read off their uses: each is an optional string. The functions
  below are stated for every extension of the record, so they cover the remaining optional
  fields of the interface as well.
\<close>

record VideoImage = GeneratedImage +
  videoStatus :: "jsstring option"
  videoTaskId :: "jsstring option"
  videoProvider :: "jsstring option"
  videoUrl :: "jsstring option"
  videoError :: "jsstring option"

text \<open>
  Modelled from the spec: the value that \<open>getGiteeTaskStatus\<close> resolves to. The service
  module is not part of the sources at hand; the specification gives the result of a status
  poll as a status with an optional result URL and an optional error, and the cast in
  \<open>App.tsx\<close> names the fields \<open>status\<close>, \<open>videoUrl\<close> and \<open>error\<close>.
\<close>

record task_status =
  status :: jsstring
  status_videoUrl :: "jsstring option"
  status_error :: "jsstring option"

text \<open>A status poll returns such a value or throws.\<close>

datatype poll_outcome = PollThrows | PollReturns task_status

text \<open>
  The remote service as the tracker sees it within one cycle: the outcome of the
  \<open>k\<close>-th call of \<open>getGiteeTaskStatus\<close> of the cycle, for the task id it is called with.
\<close>

type_synonym poller = "nat \<Rightarrow> jsstring \<Rightarrow> poll_outcome"

text \<open>The object \<open>{ id: img.id, ...result }\<close>.\<close>

record update =
  upd_id :: jsstring
  upd_status :: jsstring
  upd_videoUrl :: "jsstring option"
  upd_error :: "jsstring option"

text \<open>Truthiness of an optional string: \<open>undefined\<close> and the empty string are falsy.\<close>

definition truthy :: "jsstring option \<Rightarrow> bool" where
  "truthy v \<longleftrightarrow> (case v of None \<Rightarrow> False | Some t \<Rightarrow> t \<noteq> [])"

record 'a app_state =
  history :: "'a VideoImage_scheme list"
  currentImage :: "'a VideoImage_scheme option"
  isLiveMode :: bool
  error_message :: "jsstring option"

definition isPending :: "'a VideoImage_scheme \<Rightarrow> bool" where
  "isPending img \<longleftrightarrow>
     videoStatus img = Some (js ''generating'') \<and>
     truthy (videoTaskId img) \<and>
     videoProvider img = Some (js ''gitee'')"

definition pendingVideos :: "'a VideoImage_scheme list \<Rightarrow> 'a VideoImage_scheme list" where
  "pendingVideos currentHist = filter isPending currentHist"

text \<open>
  The body of the function mapped over the pending records, for the \<open>k\<close>-th of them: the
  task id it polls (none when the guard returns early) and the update it resolves to
  (\<open>null\<close> is \<open>None\<close>).
\<close>

definition poll_one :: "poller \<Rightarrow> nat \<Rightarrow> 'a VideoImage_scheme \<Rightarrow> jsstring option \<times> update option" where
  "poll_one poll k img =
     (if \<not> truthy (videoTaskId img) then (None, None)
      else case videoTaskId img of
             None \<Rightarrow> (None, None)
           | Some taskId \<Rightarrow>
               (case poll k taskId of
                  PollThrows \<Rightarrow> (Some taskId, None)
                | PollReturns result \<Rightarrow>
                    if status result = js ''success'' \<or> status result = js ''failed''
                    then (Some taskId,
                          Some \<lparr>upd_id = img_id img, upd_status = status result,
                                upd_videoUrl = status_videoUrl result,
                                upd_error = status_error result\<rparr>)
                    else (Some taskId, None)))"

fun poll_all :: "poller \<Rightarrow> nat \<Rightarrow> 'a VideoImage_scheme list \<Rightarrow> (jsstring option \<times> update option) list" where
  "poll_all poll k [] = []"
| "poll_all poll k (img # rest) = poll_one poll k img # poll_all poll (Suc k) rest"

definition polls_issued :: "(jsstring option \<times> update option) list \<Rightarrow> jsstring list" where
  "polls_issued results = List.map_filter fst results"

definition validUpdates :: "(jsstring option \<times> update option) list \<Rightarrow> update list" where
  "validUpdates results = List.map_filter snd results"

text \<open>\<open>update.error || 'Video generation failed'\<close>.\<close>

definition failMsg :: "update \<Rightarrow> jsstring" where
  "failMsg upd =
     (case upd_error upd of
        None \<Rightarrow> js ''Video generation failed''
      | Some m \<Rightarrow> if m \<noteq> [] then m else js ''Video generation failed'')"

text \<open>The function mapped over the history by \<open>setHistory\<close>.\<close>

definition reconcile_item :: "update list \<Rightarrow> 'a VideoImage_scheme \<Rightarrow> 'a VideoImage_scheme" where
  "reconcile_item valid item =
     (case List.find (\<lambda>u. upd_id u = img_id item) valid of
        None \<Rightarrow> item
      | Some upd \<Rightarrow>
          if upd_status upd = js ''success'' \<and> truthy (upd_videoUrl upd)
          then item\<lparr>videoStatus := Some (js ''success''), videoUrl := upd_videoUrl upd\<rparr>
          else if upd_status upd = js ''failed''
          then item\<lparr>videoStatus := Some (js ''failed''), videoError := Some (failMsg upd)\<rparr>
          else item)"

text \<open>
  The state updates of a cycle with at least one valid update: the history, and the
  displayed image when an update is for it.
\<close>

definition sync_current :: "update list \<Rightarrow> 'a app_state \<Rightarrow> 'a app_state" where
  "sync_current valid s =
     (case currentImage s of
        None \<Rightarrow> s
      | Some currImg \<Rightarrow>
          (case List.find (\<lambda>u. upd_id u = img_id currImg) valid of
             None \<Rightarrow> s
           | Some relevantUpdate \<Rightarrow>
               if upd_status relevantUpdate = js ''success'' \<and> truthy (upd_videoUrl relevantUpdate)
               then s\<lparr>currentImage :=
                        Some (currImg\<lparr>videoStatus := Some (js ''success''),
                                       videoUrl := upd_videoUrl relevantUpdate\<rparr>),
                      isLiveMode := True\<rparr>
               else if upd_status relevantUpdate = js ''failed''
               then s\<lparr>currentImage :=
                        Some (currImg\<lparr>videoStatus := Some (js ''failed''),
                                       videoError := Some (failMsg relevantUpdate)\<rparr>),
                      error_message := Some (failMsg relevantUpdate)\<rparr>
               else s))"

definition reconcile :: "update list \<Rightarrow> 'a app_state \<Rightarrow> 'a app_state" where
  "reconcile valid s = sync_current valid (s\<lparr>history := map (reconcile_item valid) (history s)\<rparr>)"

text \<open>
  A tick of the interval has two parts, with the \<open>await\<close> of the polls between them.
  The first part reads the history as it is when the tick fires and returns at once when
  no record is pending; otherwise it polls every pending record and collects the valid
  updates. Its result here is \<open>None\<close> for the early return, and otherwise the task ids
  polled, in order, with the valid updates.
\<close>

definition start_cycle ::
  "poller \<Rightarrow> 'a VideoImage_scheme list \<Rightarrow> (jsstring list \<times> update list) option" where
  "start_cycle poll currentHist =
     (let pending = pendingVideos currentHist
      in if length pending = 0 then None
         else (let results = poll_all poll 0 pending
               in Some (polls_issued results, validUpdates results)))"

text \<open>
  The second part runs when the polls have settled, on the state as it is by then: the
  updater of \<open>setHistory\<close> maps over the history of that moment, and the displayed image is
  read from its ref after the \<open>await\<close>.
\<close>

definition finish_cycle :: "update list \<Rightarrow> 'a app_state \<Rightarrow> 'a app_state" where
  "finish_cycle valid s = (if length valid > 0 then reconcile valid s else s)"

text \<open>
  A tick during which nothing else touches the state: the second part works on the state
  the first part has read. The result is the task ids polled and the state after the tick.
\<close>

definition poll_cycle :: "poller \<Rightarrow> 'a app_state \<Rightarrow> jsstring list \<times> 'a app_state" where
  "poll_cycle poll s =
     (case start_cycle poll (history s) of
        None \<Rightarrow> ([], s)
      | Some (polls, valid) \<Rightarrow> (polls, finish_cycle valid s))"






text \<open>The valid updates that a tick collects from a history.\<close>

definition scan_updates :: "poller \<Rightarrow> 'a VideoImage_scheme list \<Rightarrow> update list" where
  "scan_updates poll hist = validUpdates (poll_all poll 0 (pendingVideos hist))"

text \<open>
  Examples: a history of four records of the background-task provider, the second of them
  finished; a service that reports success for the first task and a status that is not
  terminal for the third, and fails to answer for the fourth; the same service answering
  the third call as well; a service that reports success for the first task and failure for
  the third and fails to answer for the fourth, and the same with an answer to the third
  call; a history of one pending record with a service that reports success and one that
  reports failure.
\<close>

definition video_record :: "jsstring \<Rightarrow> jsstring \<Rightarrow> jsstring \<Rightarrow> VideoImage" where
  "video_record ident st taskId =
     \<lparr>img_id = ident, url = JStr (js ''https://h/a.png''), prompt = js ''a cat'',
      aspectRatio = js ''1:1'', timestamp = 1700000000000, model = js ''z-image-turbo'',
      seed = JNum (JInt 42), videoStatus = Some st, videoTaskId = Some taskId,
      videoProvider = Some (js ''gitee''), videoUrl = None, videoError = None\<rparr>"

definition sample_state :: "unit app_state" where
  "sample_state =
     \<lparr>history =
        [video_record (js ''a'') (js ''generating'') (js ''t1''),
         video_record (js ''b'') (js ''success'') (js ''t2''),
         video_record (js ''c'') (js ''generating'') (js ''t3''),
         video_record (js ''d'') (js ''generating'') (js ''t4'')],
      currentImage = None, isLiveMode = False, error_message = None\<rparr>"

definition idle_state :: "unit app_state" where
  "idle_state =
     \<lparr>history = [video_record (js ''b'') (js ''success'') (js ''t2'')],
      currentImage = None, isLiveMode = False, error_message = None\<rparr>"

definition success_reply :: task_status where
  "success_reply =
     \<lparr>status = js ''success'', status_videoUrl = Some (js ''https://h/v.mp4''),
      status_error = None\<rparr>"

definition processing_reply :: task_status where
  "processing_reply =
     \<lparr>status = js ''processing'', status_videoUrl = None, status_error = None\<rparr>"

definition failed_reply :: task_status where
  "failed_reply =
     \<lparr>status = js ''failed'', status_videoUrl = None, status_error = Some (js ''no credit'')\<rparr>"

definition sample_poll :: poller where
  "sample_poll k taskId =
     (if taskId = js ''t1'' then PollReturns success_reply
      else if taskId = js ''t3'' then PollReturns processing_reply
      else PollThrows)"


definition mixed_poll :: poller where
  "mixed_poll k taskId =
     (if taskId = js ''t1'' then PollReturns success_reply
      else if taskId = js ''t3'' then PollReturns failed_reply
      else PollThrows)"

definition mixed_answering_poll :: poller where
  "mixed_answering_poll k taskId =
     (if k = 2 then PollReturns failed_reply else mixed_poll k taskId)"

definition success_update :: "jsstring \<Rightarrow> update" where
  "success_update ident =
     \<lparr>upd_id = ident, upd_status = js ''success'',
      upd_videoUrl = Some (js ''https://h/v.mp4''), upd_error = None\<rparr>"

definition failed_update :: "jsstring \<Rightarrow> update" where
  "failed_update ident =
     \<lparr>upd_id = ident, upd_status = js ''failed'', upd_videoUrl = None,
      upd_error = Some (js ''no credit'')\<rparr>"





section \<open>Properties of the event stream parser\<close>

lemma data_line_not_event: "is_data_line l \<Longrightarrow> \<not> is_event_line l"
proof
  assume d: "is_data_line l" and e: "is_event_line l"
  from d have "hd l = 0x64"
    by (cases l) (auto simp: is_data_line_def startsWith_def js_def)
  moreover from e have "hd l = 0x65"
    by (cases l) (auto simp: is_event_line_def startsWith_def js_def)
  ultimately show False by simp
qed



lemma flag_after_append: "flag_after b (xs @ ys) = flag_after (flag_after b xs) ys"
  by (induction xs arbitrary: b) simp_all

lemma flag_after_last:
  "flag_after b ls = (case rev (filter is_event_line ls) of [] \<Rightarrow> b | e # _ \<Rightarrow> is_complete_event e)"
proof (induction ls rule: rev_induct)
  case Nil
  show ?case by simp
next
  case (snoc l ls)
  show ?case using snoc.IH by (simp add: flag_after_append)
qed

lemma last_event_complete_flag: "last_event_complete ls = flag_after False ls"
  by (simp add: last_event_complete_def flag_after_last)

lemma scan_event_step:
  "is_event_line l \<Longrightarrow> \<not> is_error_event l \<Longrightarrow>
     scan_lines parse b (l # rest) = scan_lines parse (is_complete_event l) rest"
  by (simp add: is_event_line_def is_error_event_def is_complete_event_def event_type_def)

lemma scan_error_step:
  "is_error_event l \<Longrightarrow> scan_lines parse b (l # rest) = Inl (Error quota_message)"
  by (auto simp add: is_event_line_def is_error_event_def event_type_def js_def)

lemma scan_data_step:
  "is_data_line l \<Longrightarrow>
     scan_lines parse True (l # rest) =
       Inr (case parse (data_payload l) of Some v \<Rightarrow> v | None \<Rightarrow> JNull)"
  using data_line_not_event [of l]
  by (simp add: is_data_line_def is_event_line_def data_payload_def split: option.splits)

lemma scan_other_step:
  "\<not> is_event_line l \<Longrightarrow> \<not> (is_data_line l \<and> b) \<Longrightarrow>
     scan_lines parse b (l # rest) = scan_lines parse b rest"
  by (auto simp add: is_event_line_def is_data_line_def)

lemma scan_skip:
  "list_all (\<lambda>l. \<not> is_error_event l) pre \<Longrightarrow>
   (\<forall>j<length pre. \<not> (is_data_line (pre ! j) \<and> flag_after b (take j pre))) \<Longrightarrow>
   scan_lines parse b (pre @ rest) = scan_lines parse (flag_after b pre) rest"
proof (induction pre arbitrary: b)
  case Nil
  show ?case by simp
next
  case (Cons l pre)
  let ?b = "if is_event_line l then is_complete_event l else b"
  from Cons.prems(1) have ne: "\<not> is_error_event l" and rest_ok: "list_all (\<lambda>l. \<not> is_error_event l) pre"
    by simp_all
  from Cons.prems(2) have head: "\<not> (is_data_line l \<and> b)"
    by fastforce
  have tail: "\<forall>j<length pre. \<not> (is_data_line (pre ! j) \<and> flag_after ?b (take j pre))"
  proof (intro allI impI)
    fix j assume "j < length pre"
    then have "Suc j < length (l # pre)" by simp
    with Cons.prems(2) have "\<not> (is_data_line ((l # pre) ! Suc j) \<and> flag_after b (take (Suc j) (l # pre)))"
      by blast
    then show "\<not> (is_data_line (pre ! j) \<and> flag_after ?b (take j pre))" by simp
  qed
  have step: "scan_lines parse b (l # (pre @ rest)) = scan_lines parse ?b (pre @ rest)"
  proof (cases "is_event_line l")
    case True
    then show ?thesis using ne by (simp add: scan_event_step del: scan_lines.simps)
  next
    case False
    then show ?thesis using head by (simp add: scan_other_step del: scan_lines.simps)
  qed
  show ?case
    using step Cons.IH [OF rest_ok tail] by simp
qed

lemmas stream_eval = js_def startsWith_def trim_def is_ws_def is_event_line_def event_type_def
  is_complete_event_def is_error_event_def is_data_line_def data_payload_def
  last_event_complete_def carried_data_at_def no_carried_data_before_def
  no_error_event_before_def carried_indices_def parsed_or_null_def
  extractCompleteEventData_def sample_parse_def

lemma no_carried_iff:
  "no_carried_data_before ls k \<longleftrightarrow>
     (\<forall>j<k. \<not> (j < length ls \<and> is_data_line (ls ! j) \<and> flag_after False (take j ls)))"
  by (auto simp: no_carried_data_before_def list_all_iff carried_data_at_def last_event_complete_flag)

lemma scan_prefix:
  assumes k: "k \<le> length ls"
    and ne: "no_error_event_before ls k"
    and nd: "no_carried_data_before ls k"
  shows "scan_lines parse False ls = scan_lines parse (flag_after False (take k ls)) (drop k ls)"
proof -
  have a: "list_all (\<lambda>l. \<not> is_error_event l) (take k ls)"
    using ne by (simp add: no_error_event_before_def)
  have b: "\<forall>j<length (take k ls).
      \<not> (is_data_line (take k ls ! j) \<and> flag_after False (take j (take k ls)))"
    using nd k by (auto simp: no_carried_iff min_def)
  from scan_skip [OF a b, of parse "drop k ls"] show ?thesis by simp
qed

text \<open>
  Claim C6, as the code has it. A stream without an \<open>event: error\<close> line in which no
  \<open>data:\<close> line is carried by a \<open>complete\<close> event (in particular one whose \<open>complete\<close>
  events are followed by no \<open>data:\<close> line at all) makes the parser return \<open>null\<close>; it
  throws nothing, whatever \<open>JSON.parse\<close> does.
\<close>

theorem complete_without_data_yields_null:
  assumes "no_error_event_before (split_lines s) (length (split_lines s))"
    and "no_carried_data_before (split_lines s) (length (split_lines s))"
  shows "extractCompleteEventData parse s = Inr JNull"
  using scan_prefix [OF le_refl assms, of parse] by (simp add: extractCompleteEventData_def)


text \<open>
  The theorem at a stream with a \<open>complete\<close> event and with \<open>data:\<close> lines that belong to
  other events.
\<close>

theorem complete_without_data_yields_null_witness:
  "no_error_event_before (split_lines complete_without_data) (length (split_lines complete_without_data))
   \<and> no_carried_data_before (split_lines complete_without_data) (length (split_lines complete_without_data))
   \<and> list_ex is_complete_event (split_lines complete_without_data)
   \<and> extractCompleteEventData sample_parse complete_without_data = Inr JNull"
proof -
  have ls: "split_lines complete_without_data =
      [js ''event: heartbeat'', js ''data: 1'', js ''event: complete'', js ''event: generating'',
       js ''data: 2'', []]"
    by (simp add: complete_without_data_def js_def)
  have h1: "no_error_event_before (split_lines complete_without_data)
      (length (split_lines complete_without_data))"
    unfolding ls by (simp add: stream_eval)
  have h2: "no_carried_data_before (split_lines complete_without_data)
      (length (split_lines complete_without_data))"
    unfolding ls by (simp add: stream_eval)
  have h3: "list_ex is_complete_event (split_lines complete_without_data)"
    unfolding ls by (simp add: stream_eval)
  from h1 h2 h3 complete_without_data_yields_null [OF h1 h2, of sample_parse]
  show ?thesis by simp
qed

text \<open>
  Claim C6 as stated fails: the stream below has no \<open>event: error\<close> line, and its second
  \<open>complete\<close> event (line 2) has no \<open>data:\<close> line after it, yet the parser returns the
  payload of the first \<open>complete\<close> event and not \<open>null\<close>.
\<close>

theorem bare_complete_after_data_counterexample:
  "is_complete_event (split_lines data_then_bare_complete ! 2)
   \<and> no_data_line_after (split_lines data_then_bare_complete) 2
   \<and> no_error_event_before (split_lines data_then_bare_complete)
         (length (split_lines data_then_bare_complete))
   \<and> extractCompleteEventData sample_parse data_then_bare_complete = Inr (JNum (JInt 1))
   \<and> extractCompleteEventData sample_parse data_then_bare_complete \<noteq> Inr JNull"
proof -
  have ls: "split_lines data_then_bare_complete =
      [js ''event: complete'', js ''data: 1'', js ''event: complete'', []]"
    by (simp add: data_then_bare_complete_def js_def)
  have c: "is_complete_event (split_lines data_then_bare_complete ! 2)"
    unfolding ls by (simp add: stream_eval)
  have n: "no_data_line_after (split_lines data_then_bare_complete) 2"
    unfolding ls by (simp add: no_data_line_after_def stream_eval)
  have e: "no_error_event_before (split_lines data_then_bare_complete)
      (length (split_lines data_then_bare_complete))"
    unfolding ls by (simp add: stream_eval)
  have r: "extractCompleteEventData sample_parse data_then_bare_complete = Inr (JNum (JInt 1))"
    unfolding extractCompleteEventData_def ls by (simp add: stream_eval)
  from c n e r show ?thesis by simp
qed

text \<open>
  Claim C2, as the code has it. If line \<open>k\<close> of the stream is an \<open>event: error\<close> line and
  no \<open>data:\<close> line carried by a \<open>complete\<close> event comes before it, the parser throws the
  quota error, whatever \<open>complete\<close> events (with or without data) come after line \<open>k\<close> and
  whatever \<open>complete\<close> events without data come before it.
\<close>

theorem error_event_before_data_throws:
  assumes k: "k < length (split_lines s)"
    and err: "is_error_event (split_lines s ! k)"
    and nd: "no_carried_data_before (split_lines s) k"
  shows "extractCompleteEventData parse s = Inl (Error quota_message)"
proof -
  define ls where "ls = split_lines s"
  define m where "m = (LEAST i. is_error_event (ls ! i))"
  have mk: "m \<le> k"
    unfolding m_def using err by (simp add: Least_le ls_def)
  have em: "is_error_event (ls ! m)"
    unfolding m_def using err by (metis LeastI ls_def)
  have before: "\<not> is_error_event (ls ! i)" if "i < m" for i
    using that not_less_Least unfolding m_def by blast
  have ml: "m < length ls"
    using mk k by (simp add: ls_def)
  have ne: "no_error_event_before ls m"
    using before ml by (auto simp: no_error_event_before_def list_all_iff in_set_conv_nth)
  have nd': "no_carried_data_before ls m"
    using nd mk by (auto simp: no_carried_iff ls_def)
  have "scan_lines parse False ls =
      scan_lines parse (flag_after False (take m ls)) (drop m ls)"
    using scan_prefix [OF _ ne nd'] ml by simp
  also have "drop m ls = ls ! m # drop (Suc m) ls"
    using ml by (simp add: Cons_nth_drop_Suc)
  also have "scan_lines parse (flag_after False (take m ls)) (ls ! m # drop (Suc m) ls) =
      Inl (Error quota_message)"
    using em by (rule scan_error_step)
  finally show ?thesis
    by (simp add: extractCompleteEventData_def ls_def)
qed

text \<open>
  The theorem at a stream with a \<open>complete\<close> event without data before the error event and a
  \<open>complete\<close> event with data after it.
\<close>

theorem error_event_before_data_throws_witness:
  "2 < length (split_lines error_between_completes)
   \<and> is_error_event (split_lines error_between_completes ! 2)
   \<and> no_carried_data_before (split_lines error_between_completes) 2
   \<and> is_complete_event (split_lines error_between_completes ! 0)
   \<and> carried_data_at (split_lines error_between_completes) 5
   \<and> extractCompleteEventData sample_parse error_between_completes = Inl (Error quota_message)"
proof -
  have ls: "split_lines error_between_completes =
      [js ''event: complete'', js '': ping'', js ''event: error'', js ''data: null'',
       js ''event: complete'', js ''data: 1'']"
    by (simp add: error_between_completes_def js_def)
  have h1: "2 < length (split_lines error_between_completes)"
    unfolding ls by simp
  have h2: "is_error_event (split_lines error_between_completes ! 2)"
    unfolding ls by (simp add: stream_eval)
  have h3: "no_carried_data_before (split_lines error_between_completes) 2"
    unfolding ls by (simp add: numeral_2_eq_2 numeral_3_eq_3 no_carried_data_before_def) (simp add: stream_eval)
  have h4: "is_complete_event (split_lines error_between_completes ! 0)"
    unfolding ls by (simp add: stream_eval)
  have h5: "carried_data_at (split_lines error_between_completes) 5"
    unfolding ls by (simp add: stream_eval)
  from h1 h2 h3 h4 h5 error_event_before_data_throws [OF h1 h2 h3, of sample_parse]
  show ?thesis by simp
qed

text \<open>
  Claim C2 as stated fails: when a \<open>complete\<close> event with its \<open>data:\<close> line comes before
  the \<open>event: error\<close> line, the loop returns at the data line and never reads the error event.
\<close>

theorem error_after_complete_data_counterexample:
  "is_error_event (split_lines complete_then_error ! 2)
   \<and> extractCompleteEventData sample_parse complete_then_error = Inr (JNum (JInt 1))
   \<and> extractCompleteEventData sample_parse complete_then_error \<noteq> Inl (Error quota_message)"
proof -
  have ls: "split_lines complete_then_error =
      [js ''event: complete'', js ''data: 1'', js ''event: error'', js ''data: null'']"
    by (simp add: complete_then_error_def js_def)
  have r: "extractCompleteEventData sample_parse complete_then_error = Inr (JNum (JInt 1))"
    unfolding extractCompleteEventData_def ls by (simp add: stream_eval)
  have e: "is_error_event (split_lines complete_then_error ! 2)"
    unfolding ls by (simp add: stream_eval)
  from r e show ?thesis by simp
qed

text \<open>
  Claim C1, as the code has it. The loop returns at the first \<open>data:\<close> line carried by a
  \<open>complete\<close> event: if line \<open>j\<close> is such a line, no earlier line is one and no earlier line
  is an \<open>event: error\<close> line, the result is the payload of line \<open>j\<close> parsed as JSON, or
  \<open>null\<close> when it does not parse. Nothing after line \<open>j\<close> is read.
\<close>

theorem first_carried_data_is_returned:
  assumes c: "carried_data_at (split_lines s) j"
    and nd: "no_carried_data_before (split_lines s) j"
    and ne: "no_error_event_before (split_lines s) j"
  shows "extractCompleteEventData parse s =
    Inr (parsed_or_null parse (data_payload (split_lines s ! j)))"
proof -
  define ls where "ls = split_lines s"
  from c have jl: "j < length ls" and d: "is_data_line (ls ! j)"
    and f: "flag_after False (take j ls)"
    by (simp_all add: carried_data_at_def last_event_complete_flag ls_def)
  have "scan_lines parse False ls =
      scan_lines parse (flag_after False (take j ls)) (drop j ls)"
    using scan_prefix [of j ls parse] jl ne nd by (simp add: ls_def)
  also have "drop j ls = ls ! j # drop (Suc j) ls"
    using jl by (simp add: Cons_nth_drop_Suc)
  also have "scan_lines parse (flag_after False (take j ls)) (ls ! j # drop (Suc j) ls) =
      Inr (parsed_or_null parse (data_payload (ls ! j)))"
    using f scan_data_step [OF d, of parse] by (simp add: parsed_or_null_def)
  finally show ?thesis
    by (simp add: extractCompleteEventData_def ls_def)
qed

text \<open>
  The theorem at a stream with two \<open>complete\<close> events with data, a data line of another event
  before them and an error event after them.
\<close>

theorem first_carried_data_is_returned_witness:
  "carried_data_at (split_lines data_after_heartbeat) 3
   \<and> no_carried_data_before (split_lines data_after_heartbeat) 3
   \<and> no_error_event_before (split_lines data_after_heartbeat) 3
   \<and> extractCompleteEventData sample_parse data_after_heartbeat = Inr (JNum (JInt 1))"
proof -
  have ls: "split_lines data_after_heartbeat =
      [js ''event: heartbeat'', js ''data: 2'', js ''event: complete'', js ''data: 1'',
       js ''event: complete'', js ''data: 2'', js ''event: error'']"
    by (simp add: data_after_heartbeat_def js_def)
  have h1: "carried_data_at (split_lines data_after_heartbeat) 3"
    unfolding ls by (simp add: stream_eval)
  have h2: "no_carried_data_before (split_lines data_after_heartbeat) 3"
    unfolding ls by (simp add: numeral_2_eq_2 numeral_3_eq_3 no_carried_data_before_def) (simp add: stream_eval)
  have h3: "no_error_event_before (split_lines data_after_heartbeat) 3"
    unfolding ls by (simp add: stream_eval)
  have p: "parsed_or_null sample_parse (data_payload (split_lines data_after_heartbeat ! 3)) =
      JNum (JInt 1)"
    unfolding ls by (simp add: stream_eval)
  from h1 h2 h3 first_carried_data_is_returned [OF h1 h2 h3, of sample_parse]
  show ?thesis by (simp add: p)
qed

text \<open>
  Claim C1 as stated fails: in a stream with two \<open>complete\<close> events, each with its
  \<open>data:\<close> line (lines 1 and 3), the parser returns the payload of the first and not that of the
  last.
\<close>

theorem last_complete_payload_counterexample:
  "carried_indices (split_lines two_completes) = [1, 3]
   \<and> extractCompleteEventData sample_parse two_completes =
       Inr (parsed_or_null sample_parse (data_payload (split_lines two_completes ! 1)))
   \<and> extractCompleteEventData sample_parse two_completes \<noteq>
       Inr (parsed_or_null sample_parse (data_payload (split_lines two_completes ! 3)))"
proof -
  have ls: "split_lines two_completes =
      [js ''event: complete'', js ''data: 1'', js ''event: complete'', js ''data: 2'']"
    by (simp add: two_completes_def js_def)
  have a: "carried_indices (split_lines two_completes) = [1, 3]"
    unfolding ls by (simp add: stream_eval)
  have r: "extractCompleteEventData sample_parse two_completes = Inr (JNum (JInt 1))"
    unfolding extractCompleteEventData_def ls by (simp add: stream_eval)
  have p1: "parsed_or_null sample_parse (data_payload (split_lines two_completes ! 1)) = JNum (JInt 1)"
    unfolding ls by (simp add: stream_eval)
  have p3: "parsed_or_null sample_parse (data_payload (split_lines two_completes ! 3)) = JNum (JInt 2)"
    unfolding ls by (simp add: stream_eval)
  from a r p1 p3 show ?thesis by simp
qed

section \<open>Properties of the Job Adapter\<close>

subsection \<open>Decimal text and parseInt\<close>

lemma digit_cases:
  "d < 10 \<Longrightarrow> d = 0 \<or> d = 1 \<or> d = 2 \<or> d = 3 \<or> d = 4 \<or> d = 5 \<or> d = 6 \<or> d = 7 \<or> d = 8 \<or> d = (9::nat)"
  by arith

lemma digit_char_props:
  assumes "d < 10"
  shows "is_digit (digit_char d)" and "hex_digit (digit_char d) = d"
    and "\<not> is_ws (digit_char d)" and "digit_char d \<noteq> 0x2D"
    and "digit_char d \<noteq> 0x2B" and "digit_char d \<noteq> 0x78"
    and "digit_char d \<noteq> 0x58"
  using digit_cases [OF assms]
  by (elim disjE; simp add: digit_char_def is_digit_def hex_digit_def hex_digit_value_def is_ws_def)+

lemma decimal_nonempty: "decimal n \<noteq> []"
  by (subst decimal.simps) simp

lemma decimal_all_digits: "c \<in> set (decimal n) \<Longrightarrow> \<exists>d<10. c = digit_char d"
proof (induction n rule: decimal.induct)
  case (1 n)
  show ?case
  proof (cases "n < 10")
    case True
    with "1.prems" show ?thesis by (subst (asm) decimal.simps) auto
  next
    case False
    with "1.prems" have "c \<in> set (decimal (n div 10)) \<or> c = digit_char (n mod 10)"
      by (subst (asm) decimal.simps) auto
    then show ?thesis
    proof
      assume "c \<in> set (decimal (n div 10))"
      with "1.IH" False show ?thesis by simp
    next
      assume "c = digit_char (n mod 10)"
      moreover have "n mod 10 < 10" by simp
      ultimately show ?thesis by blast
    qed
  qed
qed

lemma digits_value_snoc: "digits_value r (ds @ [d]) = digits_value r ds * r + d"
  by (simp add: digits_value_def)

lemma digits_value_decimal: "digits_value 10 (map hex_digit (decimal n)) = n"
proof (induction n rule: decimal.induct)
  case (1 n)
  show ?case
  proof (cases "n < 10")
    case True
    then show ?thesis
      by (subst decimal.simps) (simp add: digits_value_def digit_char_props(2))
  next
    case False
    have m: "n mod 10 < 10" by simp
    have "digits_value 10 (map hex_digit (decimal n)) =
        digits_value 10 (map hex_digit (decimal (n div 10))) * 10 + hex_digit (digit_char (n mod 10))"
      using False by (subst decimal.simps) (simp add: digits_value_snoc)
    also have "\<dots> = (n div 10) * 10 + n mod 10"
      using "1.IH" False digit_char_props(2) [OF m] by simp
    finally show ?thesis by simp
  qed
qed

lemma takeWhile_digits_decimal: "takeWhile is_digit (decimal n) = decimal n"
proof -
  have "\<forall>c \<in> set (decimal n). is_digit c"
    using decimal_all_digits digit_char_props(1) by blast
  then show ?thesis by (simp add: takeWhile_eq_all_conv)
qed

lemma decimal_head: "\<exists>d<10. \<exists>cs. decimal n = digit_char d # cs"
proof -
  obtain c cs where eq: "decimal n = c # cs"
    using decimal_nonempty by (cases "decimal n") auto
  then have "c \<in> set (decimal n)" by simp
  then obtain d where "d < 10" "c = digit_char d"
    using decimal_all_digits by blast
  with eq show ?thesis by blast
qed

lemma decimal_no_hex_prefix:
  "\<not> startsWith (decimal n) (js ''0x'')" "\<not> startsWith (decimal n) (js ''0X'')"
proof -
  have no: "c \<noteq> 0x78 \<and> c \<noteq> 0x58" if cm: "c \<in> set (decimal n)" for c
  proof -
    obtain d where d: "d < 10" and c: "c = digit_char d"
      using decimal_all_digits [OF cm] by auto
    show ?thesis
      unfolding c using digit_char_props(6,7) [OF d] by simp
  qed
  have mem: "x \<in> set (decimal n)" if "take k (decimal n) = [a, x]" for a x k
  proof -
    have "x \<in> set (take k (decimal n))" by (simp add: that)
    then show ?thesis by (rule in_set_takeD)
  qed
  show "\<not> startsWith (decimal n) (js ''0x'')"
  proof
    assume "startsWith (decimal n) (js ''0x'')"
    then have "take (Suc (Suc 0)) (decimal n) = [0x30, 0x78]"
      by (simp add: startsWith_def js_def)
    from mem [OF this] have "0x78 \<in> set (decimal n)" .
    from no [OF this] show False by simp
  qed
  show "\<not> startsWith (decimal n) (js ''0X'')"
  proof
    assume "startsWith (decimal n) (js ''0X'')"
    then have "take (Suc (Suc 0)) (decimal n) = [0x30, 0x58]"
      by (simp add: startsWith_def js_def)
    from mem [OF this] have "0x58 \<in> set (decimal n)" .
    from no [OF this] show False by simp
  qed
qed

lemma parseInt_decimal:
  assumes safe: "n < 2 ^ 53"
  shows "parseInt (decimal n) = JInt (int n)"
proof -
  obtain d cs where d: "d < 10" and eq: "decimal n = digit_char d # cs"
    using decimal_head by blast
  have ws: "dropWhile is_ws (decimal n) = decimal n"
    using digit_char_props(3) [OF d] by (simp add: eq)
  have nosign: "\<not> startsWith (decimal n) [0x2D]" "hd (decimal n) \<noteq> 0x2B" "hd (decimal n) \<noteq> 0x2D"
    using digit_char_props(4,5) [OF d] by (simp_all add: eq startsWith_def)
  have "parseInt (decimal n) = parse_digits 10 (decimal n) 1"
    using nosign decimal_no_hex_prefix [of n]
    by (simp add: parseInt_def ws Let_def)
  also have "\<dots> = JInt (int n)"
    using safe
    by (simp add: parse_digits_def takeWhile_digits_decimal decimal_nonempty digits_value_decimal)
  finally show ?thesis .
qed

lemma remove_first_prefix: "pat \<noteq> [] \<Longrightarrow> remove_first pat (pat @ s) = s"
  by (cases pat) (simp_all add: startsWith_def)

lemma qwen_seed_of_echo:
  assumes "js_index data 1 = Inr (JStr (js ''Seed used for generation: '' @ decimal n))"
    and "n < 2 ^ 53"
  shows "qwen_seed_of data = Inr (JNum (JInt (int n)))"
proof -
  have "js ''Seed used for generation: '' \<noteq> []" by (simp add: js_def)
  then show ?thesis
    using assms by (simp add: qwen_seed_of_def remove_first_prefix parseInt_decimal)
qed

subsection \<open>Requests sent\<close>

lemma fst_exchange:
  "fst (exchange e ep body) = [enqueue_request e ep body] \<or>
   (\<exists>eid. fst (exchange e ep body) =
      [enqueue_request e ep body, result_request e (ep @ js ''/'' @ eid)])"
  by (auto simp add: exchange_def Let_def split: option.splits)

lemma hd_exchange:
  "fst (exchange e ep body) \<noteq> [] \<and> hd (fst (exchange e ep body)) = enqueue_request e ep body"
  using fst_exchange [of e ep body] by auto

lemma headers_exchange:
  "req \<in> set (fst (exchange e ep body)) \<Longrightarrow> req_headers req = getAuthHeaders e"
  using fst_exchange [of e ep body]
  by (auto simp: enqueue_request_def result_request_def)

lemma fst_generateZImage:
  "fst (generateZImage e p r sd h) = fst (zimage_exchange e p r sd h)"
  by (simp add: generateZImage_def split: prod.splits sum.splits)

lemma fst_generateQwenImage:
  "fst (generateQwenImage e p r sd) = fst (qwen_exchange e p r sd)"
  by (simp add: generateQwenImage_def split: prod.splits sum.splits)

lemma fst_upscaler:
  "fst (upscaler e u) = fst (upscaler_exchange e u)"
  by (simp add: upscaler_def split: prod.splits sum.splits)

lemma getAuthHeaders_cases:
  "getAuthHeaders e =
     (case stored_token e of
        None \<Rightarrow> [(js ''Content-Type'', js ''application/json'')]
      | Some t \<Rightarrow>
          if t = [] then [(js ''Content-Type'', js ''application/json'')]
          else [(js ''Content-Type'', js ''application/json''),
                (js ''Authorization'', js ''Bearer '' @ t)])"
  by (simp add: getAuthHeaders_def Let_def split: option.splits)

text \<open>
  Claim C8. Every request that \<open>generateZImage\<close>, \<open>generateQwenImage\<close> or \<open>upscaler\<close>
  sends, to the enqueue endpoint or to the result endpoint, carries the headers of
  \<open>getAuthHeaders\<close>: \<open>Content-Type: application/json\<close>, followed by
  \<open>Authorization: Bearer\<close> and the token when local storage holds a token, and by nothing when it
  holds none (or the empty string, which the code treats as no token).
\<close>

theorem auth_header_on_every_request:
  assumes "req \<in> set (fst (generateZImage e p r sd h)) \<union> set (fst (generateQwenImage e p r sd))
             \<union> set (fst (upscaler e u))"
  shows "req_headers req =
     (case stored_token e of
        None \<Rightarrow> [(js ''Content-Type'', js ''application/json'')]
      | Some t \<Rightarrow>
          if t = [] then [(js ''Content-Type'', js ''application/json'')]
          else [(js ''Content-Type'', js ''application/json''),
                (js ''Authorization'', js ''Bearer '' @ t)])"
proof -
  have "req_headers req = getAuthHeaders e"
    using assms
    by (auto simp: fst_generateZImage fst_generateQwenImage fst_upscaler zimage_exchange_def
          qwen_exchange_def upscaler_exchange_def Let_def dest: headers_exchange)
  then show ?thesis by (simp only: getAuthHeaders_cases)
qed

text \<open>
  Claim C9. The first request of \<open>generateQwenImage\<close> is the enqueue request, and its
  payload carries 42 and \<open>true\<close> without a seed, the seed and \<open>false\<close> for a seed other
  than 0, and 42 and \<open>false\<close> for the seed 0.
\<close>

theorem qwen_enqueue_seed_slot:
  "fst (generateQwenImage e p r sd) \<noteq> []
   \<and> (sd = None \<longrightarrow>
        req_body (hd (fst (generateQwenImage e p r sd))) =
          Some (JObj [(js ''data'',
            JArr [JStr p, JNum (JInt 42), JBool True, JStr (ratio_text r),
                  JNum (JInt 3), JNum (JInt 8)])]))
   \<and> (sd = Some (JInt s) \<and> s \<noteq> 0 \<longrightarrow>
        req_body (hd (fst (generateQwenImage e p r sd))) =
          Some (JObj [(js ''data'',
            JArr [JStr p, JNum (JInt s), JBool False, JStr (ratio_text r),
                  JNum (JInt 3), JNum (JInt 8)])]))
   \<and> (sd = Some (JInt 0) \<longrightarrow>
        req_body (hd (fst (generateQwenImage e p r sd))) =
          Some (JObj [(js ''data'',
            JArr [JStr p, JNum (JInt 42), JBool False, JStr (ratio_text r),
                  JNum (JInt 3), JNum (JInt 8)])]))"
proof -
  have sent: "fst (generateQwenImage e p r sd) \<noteq> []"
    using hd_exchange by (simp add: fst_generateQwenImage qwen_exchange_def)
  have body: "req_body (hd (fst (generateQwenImage e p r sd))) =
      Some (JObj [(js ''data'', JArr (qwen_payload p r sd))])"
    by (simp add: fst_generateQwenImage qwen_exchange_def hd_exchange enqueue_request_def)
  show ?thesis
    unfolding body using sent by (simp add: qwen_payload_def seed_or_42_def)
qed

lemma generateQwenImage_Inr:
  assumes "snd (generateQwenImage e p r sd) = Inr img"
  shows "\<exists>data sdv. snd (qwen_exchange e p r sd) = Inr data \<and> qwen_seed_of data = Inr sdv
           \<and> seed img = sdv"
  using assms
  by (auto simp: generateQwenImage_def split: prod.splits sum.splits)

lemma generateZImage_Inr:
  assumes "snd (generateZImage e p r sd h) = Inr img"
  shows "\<exists>data. snd (zimage_exchange e p r sd h) = Inr data \<and> js_index data 1 = Inr (seed img)"
  using assms
  by (auto simp: generateZImage_def zimage_seed_of_def split: prod.splits sum.splits)

lemma qwen_seed_of_number: "qwen_seed_of data = Inr v \<Longrightarrow> \<exists>x. v = JNum x"
  by (auto simp: qwen_seed_of_def split: sum.splits)

text \<open>
  Claim C7, as the code has it. A result of \<open>generateQwenImage\<close> holds a number as its
  seed, and when the second element of the payload is the text
  \<open>Seed used for generation: N\<close>, for a natural number \<open>N\<close> in decimal below \<open>2 ^ 53\<close>, the
  seed is the integer \<open>N\<close>. A result of \<open>generateZImage\<close> holds the second element of the
  payload as it came, whatever it is.
\<close>

theorem seed_of_generation_result:
  "(snd (generateQwenImage e p r sd) = Inr img \<longrightarrow> (\<exists>x. seed img = JNum x))
   \<and> (snd (generateQwenImage e p r sd) = Inr img \<and> snd (qwen_exchange e p r sd) = Inr data
        \<and> js_index data 1 = Inr (JStr (js ''Seed used for generation: '' @ decimal n))
        \<and> n < 2 ^ 53
      \<longrightarrow> seed img = JNum (JInt (int n)))
   \<and> (snd (generateZImage e p r sd h) = Inr img' \<and> snd (zimage_exchange e p r sd h) = Inr data'
      \<longrightarrow> js_index data' 1 = Inr (seed img'))"
proof (intro conjI impI)
  assume "snd (generateQwenImage e p r sd) = Inr img"
  from generateQwenImage_Inr [OF this] qwen_seed_of_number
  show "\<exists>x. seed img = JNum x" by blast
next
  assume a: "snd (generateQwenImage e p r sd) = Inr img \<and> snd (qwen_exchange e p r sd) = Inr data
        \<and> js_index data 1 = Inr (JStr (js ''Seed used for generation: '' @ decimal n))
        \<and> n < 2 ^ 53"
  then obtain data0 sdv where "snd (qwen_exchange e p r sd) = Inr data0"
    "qwen_seed_of data0 = Inr sdv" "seed img = sdv"
    using generateQwenImage_Inr by blast
  moreover from a have "qwen_seed_of data = Inr (JNum (JInt (int n)))"
    using qwen_seed_of_echo by blast
  ultimately show "seed img = JNum (JInt (int n))"
    using a by simp
next
  assume a: "snd (generateZImage e p r sd h) = Inr img' \<and> snd (zimage_exchange e p r sd h) = Inr data'"
  then obtain data0 where "snd (zimage_exchange e p r sd h) = Inr data0"
    "js_index data0 1 = Inr (seed img')"
    using generateZImage_Inr by blast
  with a show "js_index data' 1 = Inr (seed img')" by simp
qed


text \<open>
  Claim C10. For \<open>"4:5"\<close> and \<open>"5:4"\<close> the dimensions are the square defaults, whose
  ratio is not the one asked for; for each of the other seven ratios the width and the
  height, divided by their greatest common divisor, are the two numbers of the ratio, with
  and without HD.
\<close>

theorem zimage_dimensions_ratio:
  "(r = R4_5 \<or> r = R5_4 \<longrightarrow>
      getZImageDimensions r enableHD =
        (if enableHD then \<lparr>width = 2048, height = 2048\<rparr> else \<lparr>width = 1024, height = 1024\<rparr>)
      \<and> reduced_ratio (getZImageDimensions r enableHD) \<noteq> requested_ratio r)
   \<and> (r \<noteq> R4_5 \<and> r \<noteq> R5_4 \<longrightarrow>
      reduced_ratio (getZImageDimensions r enableHD) = requested_ratio r)"
  by (cases r; cases enableHD)
     (simp_all add: requested_ratio_def decimal_value_def digits_value_def js_def reduced_ratio_def
        gcd_non_0_int)

subsection \<open>Evaluated exchanges\<close>

lemma sample_exchange:
  "exchange (sample_env tok reply) ep body =
     ([enqueue_request (sample_env tok reply) ep body,
       result_request (sample_env tok reply) (ep @ js ''/'' @ js ''e1'')],
      extractCompleteEventData sample_parse reply)"
  by (simp add: exchange_def sample_env_def Let_def)

lemma seed_echo_parsed:
  "extractCompleteEventData sample_parse seed_echo_stream = Inr echo_payload"
proof -
  have ls: \<open>split_lines seed_echo_stream =
      [js ''event: complete'',
       js ''data: [{"url":"https://h/a.png"},"Seed used for generation: 42"]'', [], []]\<close>
    by (simp add: seed_echo_stream_def js_def)
  show ?thesis
    unfolding extractCompleteEventData_def ls by (simp add: stream_eval)
qed

lemma seed_number_parsed:
  "extractCompleteEventData sample_parse seed_number_stream = Inr number_payload"
proof -
  have ls: \<open>split_lines seed_number_stream =
      [js ''event: complete'', js ''data: [{"url":"https://h/a.png"},42]'', [], []]\<close>
    by (simp add: seed_number_stream_def js_def)
  show ?thesis
    unfolding extractCompleteEventData_def ls by (simp add: stream_eval)
qed

lemma url_of_payloads:
  "url_of echo_payload = Inr (JStr (js ''https://h/a.png''))"
  "url_of number_payload = Inr (JStr (js ''https://h/a.png''))"
  by (simp_all add: url_of_def echo_payload_def number_payload_def js_def)

lemma index_payloads:
  "js_index echo_payload 1 = Inr (JStr (js ''Seed used for generation: 42''))"
  "js_index number_payload 1 = Inr (JNum (JInt 42))"
  by (simp_all add: echo_payload_def number_payload_def)

lemma decimal_42: "decimal 42 = js ''42''"
  by (simp add: decimal.simps digit_char_def js_def)

lemma echo_text:
  "js ''Seed used for generation: '' @ decimal 42 = js ''Seed used for generation: 42''"
  by (simp add: decimal_42 js_def)

lemma qwen_echo_result:
  "generateQwenImage (sample_env None seed_echo_stream) (js ''a cat'') R1_1 sd =
     (fst (qwen_exchange (sample_env None seed_echo_stream) (js ''a cat'') R1_1 sd),
      Inr (sample_image (js ''qwen-image-fast'') (JNum (JInt 42))))"
proof -
  have "js_index echo_payload 1 = Inr (JStr (js ''Seed used for generation: '' @ decimal 42))"
    unfolding echo_text by (rule index_payloads(1))
  then have "qwen_seed_of echo_payload = Inr (JNum (JInt (int 42)))"
    by (rule qwen_seed_of_echo) simp
  then have "qwen_seed_of echo_payload = Inr (JNum (JInt 42))"
    by simp
  then show ?thesis
    by (simp add: generateQwenImage_def qwen_exchange_def sample_exchange seed_echo_parsed
          url_of_payloads sample_image_def)
       (simp add: sample_env_def)
qed

lemma zimage_result:
  "extractCompleteEventData sample_parse reply = Inr data \<Longrightarrow>
   url_of data = Inr (JStr (js ''https://h/a.png'')) \<Longrightarrow>
   js_index data 1 = Inr v \<Longrightarrow>
   snd (generateZImage (sample_env None reply) (js ''a cat'') R1_1 sd False) =
     Inr (sample_image (js ''z-image-turbo'') v)"
  by (simp add: generateZImage_def zimage_exchange_def sample_exchange Let_def
        zimage_seed_of_def sample_image_def)
     (simp add: sample_env_def)

text \<open>
  Claim C7 as stated fails for the z-image-turbo backend: when its payload carries the text
  \<open>Seed used for generation: 42\<close>, the result holds that text as its seed and not the
  integer 42.
\<close>

theorem zimage_seed_echo_counterexample:
  "snd (generateZImage (sample_env None seed_echo_stream) (js ''a cat'') R1_1 (Some (JInt 42)) False) =
     Inr (sample_image (js ''z-image-turbo'') (JStr (js ''Seed used for generation: 42'')))
   \<and> seed (sample_image (js ''z-image-turbo'') (JStr (js ''Seed used for generation: 42''))) \<noteq>
       JNum (JInt 42)"
  using zimage_result [OF seed_echo_parsed url_of_payloads(1) index_payloads(1)]
  by (simp add: sample_image_def)

text \<open>
  The theorem at a qwen-image-fast exchange that echoes the seed 42 as text and at a
  z-image-turbo exchange that reports it as a number.
\<close>

theorem seed_of_generation_result_witness:
  "snd (generateQwenImage (sample_env None seed_echo_stream) (js ''a cat'') R1_1 (Some (JInt 42))) =
     Inr (sample_image (js ''qwen-image-fast'') (JNum (JInt 42)))
   \<and> snd (qwen_exchange (sample_env None seed_echo_stream) (js ''a cat'') R1_1 (Some (JInt 42))) =
       Inr echo_payload
   \<and> js_index echo_payload 1 = Inr (JStr (js ''Seed used for generation: '' @ decimal 42))
   \<and> (42::nat) < 2 ^ 53
   \<and> seed (sample_image (js ''qwen-image-fast'') (JNum (JInt 42))) = JNum (JInt (int 42))
   \<and> snd (generateZImage (sample_env None seed_number_stream) (js ''a cat'') R1_1 (Some (JInt 42)) False) =
       Inr (sample_image (js ''z-image-turbo'') (JNum (JInt 42)))
   \<and> snd (zimage_exchange (sample_env None seed_number_stream) (js ''a cat'') R1_1 (Some (JInt 42)) False) =
       Inr number_payload
   \<and> js_index number_payload 1 = Inr (seed (sample_image (js ''z-image-turbo'') (JNum (JInt 42))))"
proof -
  have h1: "snd (generateQwenImage (sample_env None seed_echo_stream) (js ''a cat'') R1_1
      (Some (JInt 42))) = Inr (sample_image (js ''qwen-image-fast'') (JNum (JInt 42)))"
    by (simp add: qwen_echo_result)
  have h2: "snd (qwen_exchange (sample_env None seed_echo_stream) (js ''a cat'') R1_1
      (Some (JInt 42))) = Inr echo_payload"
    by (simp add: qwen_exchange_def sample_exchange seed_echo_parsed)
  have h3: "js_index echo_payload 1 = Inr (JStr (js ''Seed used for generation: '' @ decimal 42))"
    unfolding echo_text by (rule index_payloads(1))
  have h4: "(42::nat) < 2 ^ 53" by simp
  have h5: "snd (generateZImage (sample_env None seed_number_stream) (js ''a cat'') R1_1
      (Some (JInt 42)) False) = Inr (sample_image (js ''z-image-turbo'') (JNum (JInt 42)))"
    by (rule zimage_result [OF seed_number_parsed url_of_payloads(2) index_payloads(2)])
  have h6: "snd (zimage_exchange (sample_env None seed_number_stream) (js ''a cat'') R1_1
      (Some (JInt 42)) False) = Inr number_payload"
    by (simp add: zimage_exchange_def sample_exchange seed_number_parsed Let_def)
  from seed_of_generation_result
    [of "sample_env None seed_echo_stream" "js ''a cat''" R1_1 "Some (JInt 42)"
        "sample_image (js ''qwen-image-fast'') (JNum (JInt 42))" echo_payload 42]
    seed_of_generation_result
    [of "sample_env None seed_number_stream" "js ''a cat''" R1_1 "Some (JInt 42)" _ _ _ False
        "sample_image (js ''z-image-turbo'') (JNum (JInt 42))" number_payload]
    h1 h2 h3 h4 h5 h6
  show ?thesis by simp
qed

text \<open>
  The theorem at \<open>"4:5"\<close> without HD and at \<open>"16:9"\<close> with HD.
\<close>

theorem zimage_dimensions_ratio_witness:
  "getZImageDimensions R4_5 False = \<lparr>width = 1024, height = 1024\<rparr>
   \<and> reduced_ratio (getZImageDimensions R4_5 False) \<noteq> requested_ratio R4_5
   \<and> reduced_ratio (getZImageDimensions R16_9 True) = requested_ratio R16_9
   \<and> requested_ratio R16_9 = (16, 9)"
proof -
  have "requested_ratio R16_9 = (16, 9)"
    by (simp add: requested_ratio_def decimal_value_def digits_value_def js_def)
  with zimage_dimensions_ratio [of R4_5 False] zimage_dimensions_ratio [of R16_9 True]
  show ?thesis by simp
qed

text \<open>
  The theorem without a seed, with the seed 7 and with the seed 0.
\<close>

theorem qwen_enqueue_seed_slot_witness:
  "req_body (hd (fst (generateQwenImage (sample_env None seed_echo_stream) (js ''a cat'') R1_1 None))) =
     Some (JObj [(js ''data'',
       JArr [JStr (js ''a cat''), JNum (JInt 42), JBool True, JStr (js ''1:1''),
             JNum (JInt 3), JNum (JInt 8)])])
   \<and> req_body (hd (fst (generateQwenImage (sample_env None seed_echo_stream) (js ''a cat'') R1_1
        (Some (JInt 7))))) =
     Some (JObj [(js ''data'',
       JArr [JStr (js ''a cat''), JNum (JInt 7), JBool False, JStr (js ''1:1''),
             JNum (JInt 3), JNum (JInt 8)])])
   \<and> req_body (hd (fst (generateQwenImage (sample_env None seed_echo_stream) (js ''a cat'') R1_1
        (Some (JInt 0))))) =
     Some (JObj [(js ''data'',
       JArr [JStr (js ''a cat''), JNum (JInt 42), JBool False, JStr (js ''1:1''),
             JNum (JInt 3), JNum (JInt 8)])])"
  using qwen_enqueue_seed_slot [of "sample_env None seed_echo_stream" "js ''a cat''" R1_1 None]
    qwen_enqueue_seed_slot [of "sample_env None seed_echo_stream" "js ''a cat''" R1_1
      "Some (JInt 7)" 7]
    qwen_enqueue_seed_slot [of "sample_env None seed_echo_stream" "js ''a cat''" R1_1
      "Some (JInt 0)"]
  by simp

text \<open>
  The theorem at the enqueue request of \<open>generateQwenImage\<close> with the token \<open>hf_abc\<close> and
  at the result request of \<open>upscaler\<close> without a token.
\<close>

theorem auth_header_on_every_request_witness:
  "hd (fst (generateQwenImage (sample_env (Some (js ''hf_abc'')) seed_echo_stream) (js ''a cat'') R1_1 None))
     \<in> set (fst (generateZImage (sample_env (Some (js ''hf_abc'')) seed_echo_stream) (js ''a cat'') R1_1 None False))
       \<union> set (fst (generateQwenImage (sample_env (Some (js ''hf_abc'')) seed_echo_stream) (js ''a cat'') R1_1 None))
       \<union> set (fst (upscaler (sample_env (Some (js ''hf_abc'')) seed_echo_stream) (js ''https://h/a.png'')))
   \<and> req_headers (hd (fst (generateQwenImage (sample_env (Some (js ''hf_abc'')) seed_echo_stream) (js ''a cat'') R1_1 None))) =
       [(js ''Content-Type'', js ''application/json''), (js ''Authorization'', js ''Bearer hf_abc'')]
   \<and> last (fst (upscaler (sample_env None seed_echo_stream) (js ''https://h/a.png'')))
     \<in> set (fst (generateZImage (sample_env None seed_echo_stream) (js ''a cat'') R1_1 None False))
       \<union> set (fst (generateQwenImage (sample_env None seed_echo_stream) (js ''a cat'') R1_1 None))
       \<union> set (fst (upscaler (sample_env None seed_echo_stream) (js ''https://h/a.png'')))
   \<and> req_headers (last (fst (upscaler (sample_env None seed_echo_stream) (js ''https://h/a.png'')))) =
       [(js ''Content-Type'', js ''application/json'')]"
proof -
  let ?E = "sample_env (Some (js ''hf_abc'')) seed_echo_stream"
  let ?N = "sample_env None seed_echo_stream"
  let ?q = "hd (fst (generateQwenImage ?E (js ''a cat'') R1_1 None))"
  let ?u = "last (fst (upscaler ?N (js ''https://h/a.png'')))"
  have m1: "?q \<in> set (fst (generateZImage ?E (js ''a cat'') R1_1 None False))
       \<union> set (fst (generateQwenImage ?E (js ''a cat'') R1_1 None))
       \<union> set (fst (upscaler ?E (js ''https://h/a.png'')))"
    by (simp add: fst_generateQwenImage qwen_exchange_def sample_exchange)
  have m2: "?u \<in> set (fst (generateZImage ?N (js ''a cat'') R1_1 None False))
       \<union> set (fst (generateQwenImage ?N (js ''a cat'') R1_1 None))
       \<union> set (fst (upscaler ?N (js ''https://h/a.png'')))"
    by (simp add: fst_upscaler upscaler_exchange_def sample_exchange)
  have t1: "stored_token ?E = Some (js ''hf_abc'')" and t0: "stored_token ?N = None"
    by (simp_all add: stored_token_def sample_env_def)
  have ne: "js ''hf_abc'' \<noteq> []" and cat: "js ''Bearer '' @ js ''hf_abc'' = js ''Bearer hf_abc''"
    by (simp_all add: js_def)
  have r1: "req_headers ?q =
      [(js ''Content-Type'', js ''application/json''), (js ''Authorization'', js ''Bearer hf_abc'')]"
    using auth_header_on_every_request [OF m1] by (simp add: t1 ne cat)
  have r2: "req_headers ?u = [(js ''Content-Type'', js ''application/json'')]"
    using auth_header_on_every_request [OF m2] by (simp add: t0)
  from m1 r1 m2 r2 show ?thesis by blast
qed

section \<open>Properties of the Task Tracker\<close>

subsection \<open>Updates and the records they belong to\<close>

lemma poll_one_update_id: "snd (poll_one poll k img) = Some u \<Longrightarrow> upd_id u = img_id img"
  by (auto simp: poll_one_def split: if_splits option.splits poll_outcome.splits)

lemma validUpdates_Nil: "validUpdates [] = []"
  by (simp add: validUpdates_def)

lemma validUpdates_Cons:
  "validUpdates (r # rs) =
     (case snd r of None \<Rightarrow> validUpdates rs | Some u \<Rightarrow> u # validUpdates rs)"
  by (simp add: validUpdates_def split: option.splits)

lemma find_none_poll_all:
  "\<forall>x \<in> set xs. img_id x \<noteq> a \<Longrightarrow>
     List.find (\<lambda>u. upd_id u = a) (validUpdates (poll_all poll k xs)) = None"
proof (induction xs arbitrary: k)
  case Nil
  show ?case by (simp add: validUpdates_Nil)
next
  case (Cons x xs)
  have rest: "List.find (\<lambda>u. upd_id u = a) (validUpdates (poll_all poll (Suc k) xs)) = None"
    using Cons.IH Cons.prems by simp
  show ?case
  proof (cases "snd (poll_one poll k x)")
    case None
    then show ?thesis using rest by (simp add: validUpdates_Cons)
  next
    case (Some u)
    then have "upd_id u \<noteq> a"
      using poll_one_update_id Cons.prems by fastforce
    then show ?thesis using rest Some by (simp add: validUpdates_Cons)
  qed
qed

lemma find_at_poll_all:
  "distinct (map img_id xs) \<Longrightarrow> j < length xs \<Longrightarrow>
     List.find (\<lambda>u. upd_id u = img_id (xs ! j)) (validUpdates (poll_all poll k xs)) =
       snd (poll_one poll (k + j) (xs ! j))"
proof (induction xs arbitrary: k j)
  case Nil
  then show ?case by simp
next
  case (Cons x xs)
  from Cons.prems(1) have dx: "distinct (map img_id xs)" and nx: "\<forall>y \<in> set xs. img_id y \<noteq> img_id x"
    by (auto simp: image_iff)
  show ?case
  proof (cases j)
    case 0
    show ?thesis
    proof (cases "snd (poll_one poll k x)")
      case None
      then show ?thesis
        using find_none_poll_all [OF nx, of poll "Suc k"] 0 by (simp add: validUpdates_Cons)
    next
      case (Some u)
      then have "upd_id u = img_id x" by (rule poll_one_update_id)
      then show ?thesis using Some 0 by (simp add: validUpdates_Cons)
    qed
  next
    case (Suc j')
    with Cons.prems(2) have j': "j' < length xs" by simp
    then have ne: "img_id x \<noteq> img_id (xs ! j')"
      using nx nth_mem by metis
    have ih: "List.find (\<lambda>u. upd_id u = img_id (xs ! j')) (validUpdates (poll_all poll (Suc k) xs)) =
        snd (poll_one poll (Suc k + j') (xs ! j'))"
      using Cons.IH [OF dx j'] .
    show ?thesis
    proof (cases "snd (poll_one poll k x)")
      case None
      then show ?thesis using ih Suc by (simp add: validUpdates_Cons)
    next
      case (Some u)
      then have "upd_id u = img_id x" by (rule poll_one_update_id)
      then show ?thesis using Some ih Suc ne by (simp add: validUpdates_Cons)
    qed
  qed
qed


lemma reconcile_item_Nil: "reconcile_item [] item = item"
  by (simp add: reconcile_item_def)

lemma history_sync_current: "history (sync_current valid s) = history s"
  by (simp add: sync_current_def split: option.splits)

subsection \<open>The two parts of a tick\<close>

lemma start_cycle_Some:
  assumes "start_cycle poll hist = Some (polls, valid)"
  shows "polls = polls_issued (poll_all poll 0 (pendingVideos hist))"
    and "valid = scan_updates poll hist"
    and "pendingVideos hist \<noteq> []"
  using assms by (auto simp: start_cycle_def scan_updates_def Let_def split: if_splits)

lemma start_cycle_pending:
  "pendingVideos hist \<noteq> [] \<Longrightarrow>
     start_cycle poll hist =
       Some (polls_issued (poll_all poll 0 (pendingVideos hist)), scan_updates poll hist)"
  by (simp add: start_cycle_def scan_updates_def Let_def)

lemma start_cycle_None: "pendingVideos hist = [] \<Longrightarrow> start_cycle poll hist = None"
  by (simp add: start_cycle_def)

lemma history_finish_cycle:
  "history (finish_cycle valid s) = map (reconcile_item valid) (history s)"
  by (cases valid)
     (simp_all add: finish_cycle_def reconcile_def history_sync_current reconcile_item_Nil map_idI)

lemma length_history_finish_cycle: "length (history (finish_cycle valid s)) = length (history s)"
  by (simp add: history_finish_cycle)

lemma nth_history_finish_cycle:
  "i < length (history s) \<Longrightarrow>
     history (finish_cycle valid s) ! i = reconcile_item valid (history s ! i)"
  by (simp add: history_finish_cycle)





lemma pending_distinct:
  "distinct (map img_id hist) \<Longrightarrow> distinct (map img_id (pendingVideos hist))"
  by (simp add: pendingVideos_def distinct_map_filter)

lemma find_scan_other:
  "a \<notin> img_id ` set (pendingVideos hist) \<Longrightarrow>
     List.find (\<lambda>u. upd_id u = a) (scan_updates poll hist) = None"
  unfolding scan_updates_def by (rule find_none_poll_all) auto

lemma find_scan_pending:
  assumes "distinct (map img_id hist)" and "k < length (pendingVideos hist)"
    and "a = img_id (pendingVideos hist ! k)"
  shows "List.find (\<lambda>u. upd_id u = a) (scan_updates poll hist) =
     snd (poll_one poll k (pendingVideos hist ! k))"
  using find_at_poll_all [OF pending_distinct [OF assms(1)] assms(2), of poll 0] assms(3)
  by (simp add: scan_updates_def)

lemma pending_nth_isPending:
  "k < length (pendingVideos hist) \<Longrightarrow> isPending (pendingVideos hist ! k)"
  using nth_mem [of k "pendingVideos hist"] by (simp add: pendingVideos_def)





lemma terminal_not_pending:
  "videoStatus img = Some (js ''success'') \<or> videoStatus img = Some (js ''failed'')
     \<Longrightarrow> \<not> isPending img"
  by (auto simp: isPending_def js_def)



lemma thrown_no_update:
  assumes "videoTaskId img = Some t" and "poll k t = PollThrows"
  shows "snd (poll_one poll k img) = None"
  using assms by (simp add: poll_one_def)

lemma terminal_update:
  assumes "isPending img" and "videoTaskId img = Some t" and "poll k t = PollReturns res"
    and "status res = js ''success'' \<or> status res = js ''failed''"
  shows "snd (poll_one poll k img) =
     Some \<lparr>upd_id = img_id img, upd_status = status res,
           upd_videoUrl = status_videoUrl res, upd_error = status_error res\<rparr>"
  using assms by (auto simp add: poll_one_def isPending_def)

subsection \<open>What a tick does to the records\<close>


lemma polls_issued_poll_all:
  "\<forall>x \<in> set xs. truthy (videoTaskId x) \<Longrightarrow>
     map Some (polls_issued (poll_all poll k xs)) = map videoTaskId xs"
proof (induction xs arbitrary: k)
  case Nil
  show ?case by (simp add: polls_issued_def)
next
  case (Cons x xs)
  from Cons.prems obtain t where t: "videoTaskId x = Some t" "t \<noteq> []"
    by (auto simp: truthy_def split: option.splits)
  then have "fst (poll_one poll k x) = Some t"
    by (simp add: poll_one_def truthy_def split: poll_outcome.splits)
  moreover have "map Some (polls_issued (poll_all poll (Suc k) xs)) = map videoTaskId xs"
    using Cons.IH Cons.prems by simp
  ultimately show ?case
    using t by (simp add: polls_issued_def)
qed

lemma fst_poll_cycle:
  "fst (poll_cycle poll s) = polls_issued (poll_all poll 0 (pendingVideos (history s)))"
proof (cases "pendingVideos (history s) = []")
  case True
  then show ?thesis
    by (simp add: poll_cycle_def start_cycle_None polls_issued_def)
next
  case False
  then show ?thesis
    by (simp add: poll_cycle_def start_cycle_pending)
qed

text \<open>
  Claim C4. The task ids polled in a cycle are those of the pending records, one for each
  and in their order, so there are as many polls as pending records; a record whose status
  is \<open>success\<close> or \<open>failed\<close> is not among the pending records; and a cycle without
  pending records polls nothing and returns the state it was given.
\<close>

theorem one_poll_per_pending_record:
  "map Some (fst (poll_cycle poll s)) = map videoTaskId (pendingVideos (history s))
   \<and> length (fst (poll_cycle poll s)) = length (pendingVideos (history s))
   \<and> (\<forall>img \<in> set (history s).
        videoStatus img = Some (js ''success'') \<or> videoStatus img = Some (js ''failed'')
        \<longrightarrow> img \<notin> set (pendingVideos (history s)))
   \<and> (pendingVideos (history s) = [] \<longrightarrow> poll_cycle poll s = ([], s))"
proof -
  have "\<forall>x \<in> set (pendingVideos (history s)). truthy (videoTaskId x)"
    by (simp add: pendingVideos_def isPending_def)
  then have m: "map Some (fst (poll_cycle poll s)) = map videoTaskId (pendingVideos (history s))"
    unfolding fst_poll_cycle by (rule polls_issued_poll_all)
  have l: "length (fst (poll_cycle poll s)) = length (pendingVideos (history s))"
    using arg_cong [OF m, of length] by simp
  have t: "\<forall>img \<in> set (history s).
        videoStatus img = Some (js ''success'') \<or> videoStatus img = Some (js ''failed'')
        \<longrightarrow> img \<notin> set (pendingVideos (history s))"
    using terminal_not_pending by (auto simp: pendingVideos_def)
  have z: "pendingVideos (history s) = [] \<longrightarrow> poll_cycle poll s = ([], s)"
    by (simp add: poll_cycle_def start_cycle_None)
  from m l t z show ?thesis by blast
qed

text \<open>
  Claim C5. Let the \<open>k\<close>-th poll of a tick throw, the history read by the tick having
  distinct ids, and let the second part of the tick run on any state. The record the poll
  was for is left as it is; when the state is the one the tick has read, it still has status
  \<open>generating\<close> and is among the pending records of the next scan. A record whose own poll
  returned \<open>success\<close> with a result URL gets status \<open>success\<close> and that URL, and one
  whose own poll returned \<open>failed\<close> gets status \<open>failed\<close> and the error message of the
  reply, or \<open>Video generation failed\<close> when the reply has none. Every record other than the
  one of the failing poll ends the tick as it would with any other outcome of the \<open>k\<close>-th
  poll.
\<close>

theorem poll_failure_is_isolated:
  assumes d: "distinct (map img_id hist)"
    and k: "k < length (pendingVideos hist)"
    and t: "videoTaskId (pendingVideos hist ! k) = Some t"
    and f: "poll k t = PollThrows"
    and st: "start_cycle poll hist = Some (polls, valid)"
    and i: "i < length (history s)"
  shows "(img_id (history s ! i) = img_id (pendingVideos hist ! k) \<longrightarrow>
            history (finish_cycle valid s) ! i = history s ! i)
     \<and> (hist = history s \<and> history s ! i = pendingVideos hist ! k \<longrightarrow>
            videoStatus (history (finish_cycle valid s) ! i) = Some (js ''generating'')
            \<and> history s ! i \<in> set (pendingVideos (history (finish_cycle valid s))))
     \<and> (\<forall>j tj res u. j < length (pendingVideos hist) \<and> j \<noteq> k
           \<and> img_id (pendingVideos hist ! j) = img_id (history s ! i)
           \<and> videoTaskId (pendingVideos hist ! j) = Some tj \<and> poll j tj = PollReturns res
           \<and> status res = js ''success'' \<and> status_videoUrl res = Some u \<and> u \<noteq> [] \<longrightarrow>
           history (finish_cycle valid s) ! i =
             (history s ! i)\<lparr>videoStatus := Some (js ''success''), videoUrl := Some u\<rparr>)
     \<and> (\<forall>j tj res. j < length (pendingVideos hist) \<and> j \<noteq> k
           \<and> img_id (pendingVideos hist ! j) = img_id (history s ! i)
           \<and> videoTaskId (pendingVideos hist ! j) = Some tj \<and> poll j tj = PollReturns res
           \<and> status res = js ''failed'' \<longrightarrow>
           history (finish_cycle valid s) ! i =
             (history s ! i)
               \<lparr>videoStatus := Some (js ''failed''),
                videoError := Some (case status_error res of
                                      None \<Rightarrow> js ''Video generation failed''
                                    | Some m \<Rightarrow> if m = [] then js ''Video generation failed'' else m)\<rparr>)
     \<and> (\<forall>poll' polls' valid'. (\<forall>j u. j \<noteq> k \<longrightarrow> poll' j u = poll j u)
           \<and> start_cycle poll' hist = Some (polls', valid')
           \<and> img_id (history s ! i) \<noteq> img_id (pendingVideos hist ! k) \<longrightarrow>
           history (finish_cycle valid' s) ! i = history (finish_cycle valid s) ! i)"
proof -
  have v: "valid = scan_updates poll hist"
    using st by (rule start_cycle_Some(2))
  have none: "snd (poll_one poll k (pendingVideos hist ! k)) = None"
    using t f by (rule thrown_no_update)
  have own: "history (finish_cycle valid s) ! i = history s ! i"
    if eq: "img_id (history s ! i) = img_id (pendingVideos hist ! k)"
  proof -
    have "List.find (\<lambda>u. upd_id u = img_id (history s ! i)) valid = None"
      unfolding v using find_scan_pending [OF d k eq, of poll] none by simp
    then show ?thesis
      using i by (simp add: nth_history_finish_cycle reconcile_item_def)
  qed
  have again: "videoStatus (history (finish_cycle valid s) ! i) = Some (js ''generating'')
            \<and> history s ! i \<in> set (pendingVideos (history (finish_cycle valid s)))"
    if a: "hist = history s \<and> history s ! i = pendingVideos hist ! k"
  proof -
    have same: "history (finish_cycle valid s) ! i = history s ! i"
      using own a by simp
    have p: "isPending (history s ! i)"
      using pending_nth_isPending [OF k] a by simp
    have "history (finish_cycle valid s) ! i \<in> set (history (finish_cycle valid s))"
      using i by (simp add: length_history_finish_cycle)
    then have "history s ! i \<in> set (pendingVideos (history (finish_cycle valid s)))"
      using p same by (simp add: pendingVideos_def)
    then show ?thesis using p same by (simp add: isPending_def)
  qed
  have found: "List.find (\<lambda>u. upd_id u = img_id (history s ! i)) valid =
      Some \<lparr>upd_id = img_id (pendingVideos hist ! j), upd_status = status res,
            upd_videoUrl = status_videoUrl res, upd_error = status_error res\<rparr>"
    if j: "j < length (pendingVideos hist)"
      and eq: "img_id (pendingVideos hist ! j) = img_id (history s ! i)"
      and tj: "videoTaskId (pendingVideos hist ! j) = Some tj"
      and r: "poll j tj = PollReturns res"
      and tm: "status res = js ''success'' \<or> status res = js ''failed''"
    for j tj res
    unfolding v
    using find_scan_pending [OF d j eq [symmetric], of poll]
      terminal_update [where poll = poll and k = j, OF pending_nth_isPending [OF j] tj r tm]
    by simp
  have succ: "history (finish_cycle valid s) ! i =
             (history s ! i)\<lparr>videoStatus := Some (js ''success''), videoUrl := Some u\<rparr>"
    if a: "j < length (pendingVideos hist) \<and> j \<noteq> k
           \<and> img_id (pendingVideos hist ! j) = img_id (history s ! i)
           \<and> videoTaskId (pendingVideos hist ! j) = Some tj \<and> poll j tj = PollReturns res
           \<and> status res = js ''success'' \<and> status_videoUrl res = Some u \<and> u \<noteq> []"
    for j tj res u
    using found [of j tj res] a i
    by (simp add: nth_history_finish_cycle reconcile_item_def truthy_def)
  have fail: "history (finish_cycle valid s) ! i =
             (history s ! i)
               \<lparr>videoStatus := Some (js ''failed''),
                videoError := Some (case status_error res of
                                      None \<Rightarrow> js ''Video generation failed''
                                    | Some m \<Rightarrow> if m = [] then js ''Video generation failed'' else m)\<rparr>"
    if a: "j < length (pendingVideos hist) \<and> j \<noteq> k
           \<and> img_id (pendingVideos hist ! j) = img_id (history s ! i)
           \<and> videoTaskId (pendingVideos hist ! j) = Some tj \<and> poll j tj = PollReturns res
           \<and> status res = js ''failed''"
    for j tj res
  proof -
    have ne: "js ''failed'' \<noteq> js ''success''" by (simp add: js_def)
    show ?thesis
      using found [of j tj res] a i ne
      by (simp add: nth_history_finish_cycle reconcile_item_def failMsg_def split: option.splits)
  qed
  have indep: "history (finish_cycle valid' s) ! i = history (finish_cycle valid s) ! i"
    if a: "(\<forall>j u. j \<noteq> k \<longrightarrow> poll' j u = poll j u)
           \<and> start_cycle poll' hist = Some (polls', valid')
           \<and> img_id (history s ! i) \<noteq> img_id (pendingVideos hist ! k)"
    for poll' :: poller and polls' valid'
  proof -
    have v': "valid' = scan_updates poll' hist"
      using a start_cycle_Some(2) by blast
    have "List.find (\<lambda>u. upd_id u = img_id (history s ! i)) valid' =
        List.find (\<lambda>u. upd_id u = img_id (history s ! i)) valid"
    proof (cases "img_id (history s ! i) \<in> img_id ` set (pendingVideos hist)")
      case False
      then show ?thesis unfolding v v' by (simp add: find_scan_other)
    next
      case True
      then obtain j where j: "j < length (pendingVideos hist)"
        and eq: "img_id (history s ! i) = img_id (pendingVideos hist ! j)"
        by (auto simp: in_set_conv_nth)
      with a have "j \<noteq> k" by auto
      then have "poll_one poll' j (pendingVideos hist ! j) = poll_one poll j (pendingVideos hist ! j)"
        using a by (simp add: poll_one_def split: option.splits)
      then show ?thesis
        unfolding v v'
        using find_scan_pending [OF d j eq, of poll] find_scan_pending [OF d j eq, of poll']
        by simp
    qed
    then show ?thesis
      using i by (simp add: nth_history_finish_cycle reconcile_item_def)
  qed
  from own again succ fail indep show ?thesis by blast
qed

subsection \<open>Evaluated ticks\<close>

lemmas record_eval = video_record_def isPending_def truthy_def pendingVideos_def js_def

lemmas poll_eval = poll_one_def polls_issued_def validUpdates_def success_reply_def
  processing_reply_def failed_reply_def success_update_def failed_update_def video_record_def
  truthy_def js_def

lemma sample_history:
  "history sample_state =
     [video_record (js ''a'') (js ''generating'') (js ''t1''),
      video_record (js ''b'') (js ''success'') (js ''t2''),
      video_record (js ''c'') (js ''generating'') (js ''t3''),
      video_record (js ''d'') (js ''generating'') (js ''t4'')]"
  by (simp add: sample_state_def)

lemma sample_pending:
  "pendingVideos (history sample_state) =
     [video_record (js ''a'') (js ''generating'') (js ''t1''),
      video_record (js ''c'') (js ''generating'') (js ''t3''),
      video_record (js ''d'') (js ''generating'') (js ''t4'')]"
  unfolding sample_history by (simp add: record_eval)

lemma sample_distinct: "distinct (map img_id (history sample_state))"
  unfolding sample_history by (simp add: video_record_def js_def)

lemma sample_start:
  "start_cycle sample_poll (history sample_state) =
     Some ([js ''t1'', js ''t3'', js ''t4''], [success_update (js ''a'')])"
  unfolding start_cycle_def sample_pending
  by (simp add: sample_poll_def poll_eval)

lemma mixed_start:
  "start_cycle mixed_poll (history sample_state) =
     Some ([js ''t1'', js ''t3'', js ''t4''], [success_update (js ''a''), failed_update (js ''c'')])"
  unfolding start_cycle_def sample_pending
  by (simp add: mixed_poll_def poll_eval)

lemma mixed_answering_start:
  "start_cycle mixed_answering_poll (history sample_state) =
     Some ([js ''t1'', js ''t3'', js ''t4''],
           [success_update (js ''a''), failed_update (js ''c''), failed_update (js ''d'')])"
  unfolding start_cycle_def sample_pending
  by (simp add: mixed_answering_poll_def mixed_poll_def poll_eval)


lemma sample_polls:
  "fst (poll_cycle sample_poll sample_state) = [js ''t1'', js ''t3'', js ''t4'']"
  by (simp add: poll_cycle_def sample_start)





text \<open>
  The theorem at the example history, with three pending records, and at a history without
  a pending record.
\<close>

theorem one_poll_per_pending_record_witness:
  "map Some (fst (poll_cycle sample_poll sample_state)) =
     map videoTaskId (pendingVideos (history sample_state))
   \<and> fst (poll_cycle sample_poll sample_state) = [js ''t1'', js ''t3'', js ''t4'']
   \<and> length (pendingVideos (history sample_state)) = 3
   \<and> video_record (js ''b'') (js ''success'') (js ''t2'') \<in> set (history sample_state)
   \<and> videoStatus (video_record (js ''b'') (js ''success'') (js ''t2'')) = Some (js ''success'')
   \<and> video_record (js ''b'') (js ''success'') (js ''t2'') \<notin> set (pendingVideos (history sample_state))
   \<and> pendingVideos (history idle_state) = []
   \<and> poll_cycle sample_poll idle_state = ([], idle_state)"
proof -
  have m: "video_record (js ''b'') (js ''success'') (js ''t2'') \<in> set (history sample_state)"
    by (simp add: sample_history)
  have st: "videoStatus (video_record (js ''b'') (js ''success'') (js ''t2'')) = Some (js ''success'')"
    by (simp add: video_record_def)
  have idle: "pendingVideos (history idle_state) = []"
    by (simp add: idle_state_def record_eval)
  have len: "length (pendingVideos (history sample_state)) = 3"
    by (simp add: sample_pending)
  from one_poll_per_pending_record [of sample_poll sample_state]
    one_poll_per_pending_record [of sample_poll idle_state] m st idle len sample_polls
  show ?thesis by blast
qed

text \<open>
  The theorem at the example history, where the third poll throws: the record it was for,
  the first record, whose poll reports success, the third record, whose poll reports
  failure, and the first record again when the third poll answers instead of throwing.
\<close>

theorem poll_failure_is_isolated_witness:
  "distinct (map img_id (history sample_state))
   \<and> 2 < length (pendingVideos (history sample_state))
   \<and> videoTaskId (pendingVideos (history sample_state) ! 2) = Some (js ''t4'')
   \<and> mixed_poll 2 (js ''t4'') = PollThrows
   \<and> start_cycle mixed_poll (history sample_state) =
       Some ([js ''t1'', js ''t3'', js ''t4''], [success_update (js ''a''), failed_update (js ''c'')])
   \<and> 3 < length (history sample_state)
   \<and> history sample_state ! 3 = pendingVideos (history sample_state) ! 2
   \<and> history (finish_cycle [success_update (js ''a''), failed_update (js ''c'')] sample_state) ! 3 =
       history sample_state ! 3
   \<and> videoStatus (history (finish_cycle [success_update (js ''a''), failed_update (js ''c'')]
         sample_state) ! 3) = Some (js ''generating'')
   \<and> history sample_state ! 3 \<in> set (pendingVideos (history
         (finish_cycle [success_update (js ''a''), failed_update (js ''c'')] sample_state)))
   \<and> img_id (pendingVideos (history sample_state) ! 0) = img_id (history sample_state ! 0)
   \<and> videoTaskId (pendingVideos (history sample_state) ! 0) = Some (js ''t1'')
   \<and> mixed_poll 0 (js ''t1'') = PollReturns success_reply
   \<and> status success_reply = js ''success''
   \<and> status_videoUrl success_reply = Some (js ''https://h/v.mp4'')
   \<and> history (finish_cycle [success_update (js ''a''), failed_update (js ''c'')] sample_state) ! 0 =
       (history sample_state ! 0)
         \<lparr>videoStatus := Some (js ''success''), videoUrl := Some (js ''https://h/v.mp4'')\<rparr>
   \<and> img_id (pendingVideos (history sample_state) ! 1) = img_id (history sample_state ! 2)
   \<and> videoTaskId (pendingVideos (history sample_state) ! 1) = Some (js ''t3'')
   \<and> mixed_poll 1 (js ''t3'') = PollReturns failed_reply
   \<and> status failed_reply = js ''failed''
   \<and> history (finish_cycle [success_update (js ''a''), failed_update (js ''c'')] sample_state) ! 2 =
       (history sample_state ! 2)
         \<lparr>videoStatus := Some (js ''failed''), videoError := Some (js ''no credit'')\<rparr>
   \<and> mixed_answering_poll 2 (js ''t4'') = PollReturns failed_reply
   \<and> start_cycle mixed_answering_poll (history sample_state) =
       Some ([js ''t1'', js ''t3'', js ''t4''],
             [success_update (js ''a''), failed_update (js ''c''), failed_update (js ''d'')])
   \<and> img_id (history sample_state ! 0) \<noteq> img_id (pendingVideos (history sample_state) ! 2)
   \<and> history (finish_cycle
         [success_update (js ''a''), failed_update (js ''c''), failed_update (js ''d'')]
         sample_state) ! 0 =
       history (finish_cycle [success_update (js ''a''), failed_update (js ''c'')] sample_state) ! 0"
proof -
  let ?valid = "[success_update (js ''a''), failed_update (js ''c'')]"
  let ?more = "[success_update (js ''a''), failed_update (js ''c''), failed_update (js ''d'')]"
  let ?polls = "[js ''t1'', js ''t3'', js ''t4'']"
  have d: "distinct (map img_id (history sample_state))"
    by (rule sample_distinct)
  have k: "2 < length (pendingVideos (history sample_state))"
    and j1: "1 < length (pendingVideos (history sample_state))"
    and j0: "0 < length (pendingVideos (history sample_state))"
    by (simp_all add: sample_pending)
  have t: "videoTaskId (pendingVideos (history sample_state) ! 2) = Some (js ''t4'')"
    unfolding sample_pending by (simp add: video_record_def)
  have f: "mixed_poll 2 (js ''t4'') = PollThrows"
    by (simp add: mixed_poll_def js_def)
  have st: "start_cycle mixed_poll (history sample_state) = Some (?polls, ?valid)"
    by (rule mixed_start)
  have i3: "3 < length (history sample_state)" and i2: "2 < length (history sample_state)"
    and i0: "0 < length (history sample_state)"
    by (simp_all add: sample_history)
  have e3: "history sample_state ! 3 = pendingVideos (history sample_state) ! 2"
    unfolding sample_pending unfolding sample_history by simp
  have id0: "img_id (pendingVideos (history sample_state) ! 0) = img_id (history sample_state ! 0)"
    unfolding sample_pending unfolding sample_history by simp
  have t1: "videoTaskId (pendingVideos (history sample_state) ! 0) = Some (js ''t1'')"
    unfolding sample_pending by (simp add: video_record_def)
  have r0: "mixed_poll 0 (js ''t1'') = PollReturns success_reply"
    by (simp add: mixed_poll_def)
  have ss: "status success_reply = js ''success''"
    and su: "status_videoUrl success_reply = Some (js ''https://h/v.mp4'')"
    by (simp_all add: success_reply_def)
  have une: "js ''https://h/v.mp4'' \<noteq> []"
    by (simp add: js_def)
  have id2: "img_id (pendingVideos (history sample_state) ! 1) = img_id (history sample_state ! 2)"
    unfolding sample_pending unfolding sample_history by simp
  have t3: "videoTaskId (pendingVideos (history sample_state) ! 1) = Some (js ''t3'')"
    unfolding sample_pending by (simp add: video_record_def)
  have r1: "mixed_poll 1 (js ''t3'') = PollReturns failed_reply"
    by (simp add: mixed_poll_def js_def)
  have fs: "status failed_reply = js ''failed''"
    by (simp add: failed_reply_def)
  have fe: "(case status_error failed_reply of
              None \<Rightarrow> js ''Video generation failed''
            | Some m \<Rightarrow> if m = [] then js ''Video generation failed'' else m) = js ''no credit''"
    by (simp add: failed_reply_def js_def)
  have ans: "mixed_answering_poll 2 (js ''t4'') = PollReturns failed_reply"
    by (simp add: mixed_answering_poll_def)
  have agree: "\<forall>j u. j \<noteq> 2 \<longrightarrow> mixed_answering_poll j u = mixed_poll j u"
    by (simp add: mixed_answering_poll_def)
  have st': "start_cycle mixed_answering_poll (history sample_state) = Some (?polls, ?more)"
    by (rule mixed_answering_start)
  have n0: "img_id (history sample_state ! 0) \<noteq> img_id (pendingVideos (history sample_state) ! 2)"
    unfolding sample_pending unfolding sample_history by (simp add: video_record_def js_def)
  have id3: "img_id (history sample_state ! 3) = img_id (pendingVideos (history sample_state) ! 2)"
    using e3 by simp
  note at3 = poll_failure_is_isolated
    [where poll = mixed_poll and hist = "history sample_state" and s = sample_state and k = 2
       and t = "js ''t4''" and i = 3, OF d k t f st i3]
  note at0 = poll_failure_is_isolated
    [where poll = mixed_poll and hist = "history sample_state" and s = sample_state and k = 2
       and t = "js ''t4''" and i = 0, OF d k t f st i0]
  note at2 = poll_failure_is_isolated
    [where poll = mixed_poll and hist = "history sample_state" and s = sample_state and k = 2
       and t = "js ''t4''" and i = 2, OF d k t f st i2]
  have a1: "history (finish_cycle ?valid sample_state) ! 3 = history sample_state ! 3"
    using at3 id3 by blast
  have a2: "videoStatus (history (finish_cycle ?valid sample_state) ! 3) = Some (js ''generating'')
      \<and> history sample_state ! 3 \<in> set (pendingVideos (history (finish_cycle ?valid sample_state)))"
    using at3 e3 by blast
  have g0: "0 < length (pendingVideos (history sample_state)) \<and> 0 \<noteq> (2::nat)
      \<and> img_id (pendingVideos (history sample_state) ! 0) = img_id (history sample_state ! 0)
      \<and> videoTaskId (pendingVideos (history sample_state) ! 0) = Some (js ''t1'')
      \<and> mixed_poll 0 (js ''t1'') = PollReturns success_reply
      \<and> status success_reply = js ''success''
      \<and> status_videoUrl success_reply = Some (js ''https://h/v.mp4'')
      \<and> js ''https://h/v.mp4'' \<noteq> []"
    using j0 id0 t1 r0 ss su une by auto
  have b: "history (finish_cycle ?valid sample_state) ! 0 =
       (history sample_state ! 0)
         \<lparr>videoStatus := Some (js ''success''), videoUrl := Some (js ''https://h/v.mp4'')\<rparr>"
    using at0 [THEN conjunct2, THEN conjunct2, THEN conjunct1, rule_format, OF g0] .
  have g1: "1 < length (pendingVideos (history sample_state)) \<and> 1 \<noteq> (2::nat)
      \<and> img_id (pendingVideos (history sample_state) ! 1) = img_id (history sample_state ! 2)
      \<and> videoTaskId (pendingVideos (history sample_state) ! 1) = Some (js ''t3'')
      \<and> mixed_poll 1 (js ''t3'') = PollReturns failed_reply
      \<and> status failed_reply = js ''failed''"
    using j1 id2 t3 r1 fs by auto
  have c: "history (finish_cycle ?valid sample_state) ! 2 =
       (history sample_state ! 2)
         \<lparr>videoStatus := Some (js ''failed''), videoError := Some (js ''no credit'')\<rparr>"
    using at2 [THEN conjunct2, THEN conjunct2, THEN conjunct2, THEN conjunct1, rule_format, OF g1]
    unfolding fe .
  have g2: "(\<forall>j u. j \<noteq> 2 \<longrightarrow> mixed_answering_poll j u = mixed_poll j u)
      \<and> start_cycle mixed_answering_poll (history sample_state) = Some (?polls, ?more)
      \<and> img_id (history sample_state ! 0) \<noteq> img_id (pendingVideos (history sample_state) ! 2)"
    using agree st' n0 by blast
  have e: "history (finish_cycle ?more sample_state) ! 0 =
      history (finish_cycle ?valid sample_state) ! 0"
    using at0 [THEN conjunct2, THEN conjunct2, THEN conjunct2, THEN conjunct2, rule_format, OF g2] .
  from d k t f st i3 e3 a1 a2 id0 t1 r0 ss su b id2 t3 r1 fs c ans st' n0 e
  show ?thesis by blast
qed

end
